theory Spec2Isabelle
  imports Main "HOL-Library.Sublist" "HOL-Library.AList"
begin

section \<open>The keep-alive poller of src/index.ts\<close>

text \<open>
  The program polls a hosted web application, carries a per-domain cookie jar across
  requests, classifies every response and reports the result to a push monitor.
  Its third-party libraries (the URL parser, the cookie package, cheerio, JSON) are not
  part of the program: they are taken as parameters, collected in the record
  \<open>platform\<close>. Whatever the network answers is taken as an input as well (the
  \<open>attempt_env\<close> of each attempt), so every theorem holds for all library behaviours
  and all network behaviours unless a hypothesis says otherwise.
  Console output, requests, delays and monitor pushes are recorded as a trace of events.
  The text of the log lines and of the monitor messages is not ASCII in the source; each
  message is a constructor here, named after what it says.
\<close>

subsection \<open>Values thrown, library results, configuration\<close>

text \<open>
  A value thrown in JavaScript: an \<open>Error\<close> instance with its \<open>name\<close>, its
  \<open>code\<close> (empty when undefined) and its \<open>message\<close>, or any other value.
  A call that may throw returns \<open>thrown + 'a\<close>.
\<close>

datatype thrown = ErrorObj string string string | NonError string

text \<open>What \<open>cookie.parseSetCookie\<close> returns: name and value may be undefined.\<close>

record set_cookie =
  sc_name :: "string option"
  sc_value :: "string option"

text \<open>
  What \<open>JSON.parse\<close> returns, as far as \<open>pushToUptimeKuma\<close> looks at it: \<open>null\<close>
  (reading a property of it throws), or a value with a truthy or falsy \<open>ok\<close> and a
  \<open>msg\<close> (empty when falsy or undefined).
\<close>

datatype json_reply = JsonNull | JsonValue bool string

text \<open>
  A cookie object: a plain JavaScript object used as a dictionary from names to string
  values, as the list of its own properties in insertion order. (JavaScript lists keys that
  are array indices first; no property below depends on the order.)
\<close>

type_synonym CookieObject = "(string \<times> string) list"

text \<open>
  The assignment \<open>obj[name] = value\<close> of a string to a plain object. Every name becomes
  an own property, except \<open>__proto__\<close>: that name is an accessor inherited from
  \<open>Object.prototype\<close>, whose setter ignores a string, so nothing is stored.
\<close>

definition obj_set :: "string \<Rightarrow> string \<Rightarrow> CookieObject \<Rightarrow> CookieObject" where
  "obj_set name val obj = (if name = ''__proto__'' then obj else AList.update name val obj)"

text \<open>
  The test \<open>obj[name] !== value\<close> for a string \<open>value\<close>. A name that is no own
  property reads as \<open>undefined\<close> or as what \<open>Object.prototype\<close> holds under it, never
  as a string; \<open>__proto__\<close> always reads as the prototype.
\<close>

definition obj_differs :: "string \<Rightarrow> string \<Rightarrow> CookieObject \<Rightarrow> bool" where
  "obj_differs name val obj = (name = ''__proto__'' \<or> map_of obj name \<noteq> Some val)"

text \<open>
  The libraries. \<open>url_hostname u\<close> is \<open>new URL(u).hostname\<close>;
  \<open>select_space_iframe html\<close> is the selection \<open>cheerio.load(html)("iframe.space-iframe")\<close>,
  given as the \<open>src\<close> attribute of each matched element in document order.
\<close>

record platform =
  url_hostname :: "string \<Rightarrow> thrown + string"
  parseCookie :: "string \<Rightarrow> thrown + (string \<times> string option) list"
  stringifyCookie :: "CookieObject \<Rightarrow> thrown + string"
  parseSetCookie :: "string \<Rightarrow> thrown + set_cookie"
  select_space_iframe :: "string \<Rightarrow> thrown + string option list"
  json_parse :: "string \<Rightarrow> thrown + json_reply"

record uptimeKuma_config =
  pushUrl :: string
  enabled :: bool

record Config =
  spaceUrl :: string
  targetUrl :: string
  cookie :: string
  interval :: int
  expectedStatusCodes :: "int list"
  maxRetries :: int
  uptimeKuma :: "uptimeKuma_config option"

subsection \<open>Events\<close>

datatype level = Info | Warning | Failure

datatype up_status = Up | Down

text \<open>The messages pushed to the monitor (the \<open>msg\<close> argument of \<open>pushToUptimeKuma\<close>).\<close>

datatype push_msg =
    MsgOK
  | MsgNoTargetUrl
  | MsgFailureMarker int
  | MsgUnexpectedStatus int
  | MsgTimeout
  | MsgConnect
  | MsgUnknownError string
  | MsgUnknown

datatype log_msg =
    CannotExtractDomain
  | CookieUpdated string string
  | SetCookieParseFailed thrown
  | CookiesUpdated string nat
  | StorageDump
  | NoCookieFor string
  | KumaPushing up_status
  | KumaPushOk
  | KumaPushRejected string
  | KumaPushHttp int
  | KumaPushException thrown
  | IframeNotFound
  | IframeNoSrc
  | IframeExtracted string
  | HtmlParseFailed thrown
  | VisitingSpace string
  | SpaceHttpError int
  | SpaceException thrown
  | UsingFallback
  | NoTargetUrl
  | Visiting string
  | MarkerDetected
  | MarkerStatus int
  | MarkerReason
  | RetryWait
  | UnexpectedCode int
  | ExpectedCodes "int list"
  | BodyPreview string
  | KeepAliveOk int nat
  | ReqTimeout
  | ConnectFailed
  | UnknownError string
  | AllRetriesFailed

datatype which = SpacePage | Target

text \<open>
  \<open>Fetch w url cookieHeader\<close> is the GET request to the wrapper page or to the target;
  \<open>Report\<close> is a call of \<open>pushToUptimeKuma\<close> with its three arguments;
  \<open>MonitorGet\<close> is the GET request that call sends to the push URL.
\<close>

datatype event =
    Log level log_msg
  | Fetch which string string
  | Sleep nat
  | Report up_status push_msg "nat option"
  | MonitorGet string up_status push_msg "nat option"

subsection \<open>Failure markers\<close>

definition FAILURE_MARKERS :: "string list" where
  "FAILURE_MARKERS =
     [''Sorry, we can't find the page you are looking for.'',
      ''https://huggingface.co/front/assets/huggingface_logo.svg'']"

text \<open>\<open>String.prototype.includes\<close>: the pattern occurs at some position.\<close>

fun str_includes :: "string \<Rightarrow> string \<Rightarrow> bool" where
  "str_includes [] m = (m = [])"
| "str_includes (c # cs) m = (prefix m (c # cs) \<or> str_includes cs m)"

definition containsFailureMarker :: "string \<Rightarrow> bool" where
  "containsFailureMarker responseBody =
     list_ex (\<lambda>marker. str_includes responseBody marker) FAILURE_MARKERS"

subsection \<open>The cookie jar\<close>

text \<open>
  \<open>cookieStorage\<close> maps a domain to a cookie object. The objects are mutated in place,
  so the jar is a table from domains to references and a heap of objects: two domains
  that held the same reference would share every update. The table holds the own
  properties of \<open>cookieStorage\<close>; the two host names \<open>constructor\<close> and
  \<open>__proto__\<close>, under which the lookup finds an object inherited from
  \<open>Object.prototype\<close>, are outside the model.
\<close>

record jar =
  cookieStorage :: "(string \<times> nat) list"
  heap :: "CookieObject list"

definition jar_get :: "jar \<Rightarrow> string \<Rightarrow> CookieObject option" where
  "jar_get j domain =
     (case map_of (cookieStorage j) domain of
        None \<Rightarrow> None
      | Some a \<Rightarrow> if a < length (heap j) then Some (heap j ! a) else None)"

text \<open>\<open>cookieStorage[domain] = obj\<close> for a freshly created object \<open>obj\<close>.\<close>

definition jar_store_new :: "string \<Rightarrow> CookieObject \<Rightarrow> jar \<Rightarrow> jar" where
  "jar_store_new domain obj j =
     \<lparr>cookieStorage = AList.update domain (length (heap j)) (cookieStorage j),
      heap = heap j @ [obj]\<rparr>"

definition extractDomain :: "platform \<Rightarrow> string \<Rightarrow> string" where
  "extractDomain P url = (case url_hostname P url of Inl err \<Rightarrow> [] | Inr h \<Rightarrow> h)"

text \<open>A JavaScript \<open>Set\<close> keeps the first occurrence of each element, in insertion order.\<close>

fun set_add :: "string list \<Rightarrow> string \<Rightarrow> string list" where
  "set_add ds d = (if d \<in> set ds then ds else ds @ [d])"

text \<open>
  \<open>initCookie\<close>: the seed cookie string is parsed once and every configured domain
  gets its own copy of the result (\<open>{ ...cookieObj }\<close>). \<open>None\<close> is
  \<open>process.exit(1)\<close>. The console output of this function is left out.
\<close>

definition initCookie :: "platform \<Rightarrow> Config \<Rightarrow> jar \<Rightarrow> jar option" where
  "initCookie P cfg j =
     (let urls = (if spaceUrl cfg \<noteq> [] then [spaceUrl cfg] else []) @
                 (if targetUrl cfg \<noteq> [] then [targetUrl cfg] else []);
          uniqueDomains =
            foldl (\<lambda>ds url. let domain = extractDomain P url
                             in if domain \<noteq> [] then set_add ds domain else ds) [] urls
      in case parseCookie P (cookie cfg) of
           Inl err \<Rightarrow> None
         | Inr parsed \<Rightarrow>
             (let cookieObj =
                    foldl (\<lambda>obj (key, v). case v of None \<Rightarrow> obj
                                            | Some val \<Rightarrow> obj_set key val obj) [] parsed
              in Some (foldl (\<lambda>j domain. jar_store_new domain cookieObj j) j uniqueDomains)))"

text \<open>\<open>serializeCookie\<close>: the events logged and the header, or what the library threw.\<close>

definition serializeCookie :: "platform \<Rightarrow> jar \<Rightarrow> string \<Rightarrow> event list \<times> (thrown + string)" where
  "serializeCookie P j url =
     (let domain = extractDomain P url
      in case (if domain = [] then None else jar_get j domain) of
           None \<Rightarrow> ([Log Warning (NoCookieFor domain)], Inr [])
         | Some obj \<Rightarrow> ([Log Info StorageDump], stringifyCookie P obj))"

text \<open>
  The body of the loop of \<open>updateCookies\<close> for one header: the object at reference
  \<open>a\<close> is written in place, \<open>updateCount\<close> is incremented whatever the write
  stored, and the update is logged when the old value differs. The accumulator is the jar,
  \<open>updateCount\<close> and the events logged so far.
\<close>

definition valuePreview :: "string \<Rightarrow> string" where
  "valuePreview v = (if length v > 5000 then take 5000 v @ ''...'' else v)"

definition updateOne :: "platform \<Rightarrow> nat \<Rightarrow> jar \<times> nat \<times> event list \<Rightarrow> string \<Rightarrow> jar \<times> nat \<times> event list" where
  "updateOne P a acc setCookieHeader =
     (case acc of (j, updateCount, evs) \<Rightarrow>
        (case parseSetCookie P setCookieHeader of
           Inl err \<Rightarrow> (j, updateCount, evs @ [Log Warning (SetCookieParseFailed err)])
         | Inr parsed \<Rightarrow>
             (case (sc_name parsed, sc_value parsed) of
                (Some name, Some val) \<Rightarrow>
                  if name \<noteq> [] \<and> val \<noteq> [] then
                    (let changed = obj_differs name val (heap j ! a);
                         j' = j\<lparr>heap := (heap j)[a := obj_set name val (heap j ! a)]\<rparr>
                     in (j', updateCount + 1,
                         evs @ (if changed
                                then [Log Info (CookieUpdated name (valuePreview val))] else [])))
                  else (j, updateCount, evs)
              | _ \<Rightarrow> (j, updateCount, evs))))"

text \<open>
  \<open>updateCookies\<close> returns the jar, \<open>updateCount\<close> and the events logged.
  A missing jar entry is created first, as a new empty object.
\<close>

definition updateCookies :: "platform \<Rightarrow> jar \<Rightarrow> string \<Rightarrow> string list \<Rightarrow> jar \<times> nat \<times> event list" where
  "updateCookies P j url setCookieHeaders =
     (let domain = extractDomain P url
      in if domain = [] then (j, 0, [Log Warning CannotExtractDomain])
         else
           (let j1 = (if jar_get j domain = None then jar_store_new domain [] j else j);
                a = the (map_of (cookieStorage j1) domain);
                (j2, updateCount, evs) = foldl (updateOne P a) (j1, 0, []) setCookieHeaders
            in (j2, updateCount,
                evs @ (if updateCount > 0
                       then [Log Info (CookiesUpdated domain updateCount), Log Info StorageDump]
                       else []))))"

subsection \<open>The network\<close>

text \<open>
  The \<open>set-cookie\<close> header of a response: undefined, one string, or an array.
\<close>

datatype header_value = Absent | Single string | Multiple "string list"

text \<open>
  A response as \<open>request\<close> resolves it: the promise resolves when the headers have
  arrived, \<open>headersMs\<close> milliseconds after the request was issued; reading the body
  with \<open>response.body.text()\<close> takes another \<open>bodyMs\<close> milliseconds and may throw.
\<close>

record response =
  statusCode :: int
  setCookie :: header_value
  headersMs :: nat
  bodyText :: "thrown + string"
  bodyMs :: nat

text \<open>A request either rejects (after some milliseconds) or resolves.\<close>

datatype fetch = Rejects thrown nat | Resolves response

text \<open>
  What the network does during one attempt: its answer to the request for the wrapper page,
  to the request for the target, and to the push to the monitor.
\<close>

record attempt_env =
  space :: fetch
  target :: fetch
  monitor :: fetch

subsection \<open>pushToUptimeKuma\<close>

text \<open>
  The \<open>try\<close> block of \<open>pushToUptimeKuma\<close>: the events, and the value thrown if any.
\<close>

definition pushTry :: "platform \<Rightarrow> uptimeKuma_config \<Rightarrow> fetch \<Rightarrow> up_status \<Rightarrow> push_msg \<Rightarrow> nat option
    \<Rightarrow> event list \<times> thrown option" where
  "pushTry P k f status msg ping =
     (case url_hostname P (pushUrl k) of
        Inl err \<Rightarrow> ([], Some err)
      | Inr h \<Rightarrow>
          (let evs = [Log Info (KumaPushing status), MonitorGet (pushUrl k) status msg ping]
           in case f of
                Rejects err ms \<Rightarrow> (evs, Some err)
              | Resolves r \<Rightarrow>
                  (case bodyText r of
                     Inl err \<Rightarrow> (evs, Some err)
                   | Inr responseBody \<Rightarrow>
                       if statusCode r = 200 then
                         (case json_parse P responseBody of
                            Inl err \<Rightarrow> (evs, Some err)
                          | Inr JsonNull \<Rightarrow> (evs, Some (ErrorObj ''TypeError'' [] []))
                          | Inr (JsonValue ok m) \<Rightarrow>
                              if ok then (evs @ [Log Info KumaPushOk], None)
                              else (evs @ [Log Warning (KumaPushRejected m)], None))
                       else (evs @ [Log Warning (KumaPushHttp (statusCode r))], None))))"

text \<open>
  \<open>pushToUptimeKuma\<close>: nothing happens unless the monitor is configured and enabled;
  the \<open>catch\<close> block logs whatever the \<open>try\<close> block threw. The second component is
  what the function throws to its caller.
\<close>

definition pushToUptimeKuma :: "platform \<Rightarrow> Config \<Rightarrow> fetch \<Rightarrow> up_status \<Rightarrow> push_msg \<Rightarrow> nat option
    \<Rightarrow> event list \<times> thrown option" where
  "pushToUptimeKuma P cfg f status msg ping =
     (case uptimeKuma cfg of
        None \<Rightarrow> ([], None)
      | Some k \<Rightarrow>
          if \<not> enabled k then ([], None)
          else (case pushTry P k f status msg ping of
                  (evs, Some err) \<Rightarrow> (evs @ [Log Warning (KumaPushException err)], None)
                | (evs, None) \<Rightarrow> (evs, None)))"

subsection \<open>The state of a poll cycle\<close>

text \<open>
  The outcome of one attempt, as the branch taken by \<open>keepAlive\<close> decides it, with the
  status code and the response time measured where there are any.
\<close>

datatype outcome =
    Success int nat
  | ContentFailure int nat
  | UnexpectedStatus int nat
  | TransportError thrown
  | NoTarget

text \<open>
  The state threaded through a cycle: the jar, the clock (\<open>Date.now()\<close>, in
  milliseconds), the trace, whether \<open>lastError\<close> is set. \<open>attempts\<close> is not a
  variable of the program: it records the outcome of every attempt of the cycle.
\<close>

record cycle =
  jar_of :: jar
  now :: nat
  trace :: "event list"
  lastError :: bool
  attempts :: "outcome list"

definition says :: "event list \<Rightarrow> cycle \<Rightarrow> cycle" where
  "says evs c = c\<lparr>trace := trace c @ evs\<rparr>"

definition tick :: "nat \<Rightarrow> cycle \<Rightarrow> cycle" where
  "tick ms c = c\<lparr>now := now c + ms\<rparr>"

definition noted :: "outcome \<Rightarrow> cycle \<Rightarrow> cycle" where
  "noted out c = c\<lparr>attempts := attempts c @ [out]\<rparr>"

text \<open>
  The handling of the \<open>set-cookie\<close> header, the same after both requests: a falsy
  header (undefined or the empty string) and an empty array are skipped.
\<close>

definition applySetCookie :: "platform \<Rightarrow> string \<Rightarrow> header_value \<Rightarrow> cycle \<Rightarrow> cycle" where
  "applySetCookie P url hv c =
     (let headers = (case hv of Absent \<Rightarrow> [] | Single s \<Rightarrow> if s = [] then [] else [s]
                     | Multiple hs \<Rightarrow> hs)
      in if length headers > 0 then
           (case updateCookies P (jar_of c) url headers of
              (j, updateCount, evs) \<Rightarrow> says evs (c\<lparr>jar_of := j\<rparr>))
         else c)"

subsection \<open>Extracting the target from the wrapper page\<close>

definition extractIframeUrl :: "platform \<Rightarrow> string \<Rightarrow> event list \<times> string option" where
  "extractIframeUrl P html =
     (case select_space_iframe P html of
        Inl err \<Rightarrow> ([Log Failure (HtmlParseFailed err)], None)
      | Inr iframe \<Rightarrow>
          (case iframe of
             [] \<Rightarrow> ([Log Warning IframeNotFound], None)
           | first # others \<Rightarrow>
               (case first of
                  None \<Rightarrow> ([Log Warning IframeNoSrc], None)
                | Some src \<Rightarrow>
                    if src = [] then ([Log Warning IframeNoSrc], None)
                    else ([Log Info (IframeExtracted src)], Some src))))"

text \<open>The \<open>try\<close> block of \<open>getIframeUrl\<close>: what it returns or throws, and the state.\<close>

definition getIframeUrl_try :: "platform \<Rightarrow> Config \<Rightarrow> fetch \<Rightarrow> cycle \<Rightarrow> (thrown + string option) \<times> cycle" where
  "getIframeUrl_try P cfg f c =
     (let c1 = says [Log Info (VisitingSpace (spaceUrl cfg))] c
      in case serializeCookie P (jar_of c1) (spaceUrl cfg) of
           (evs, Inl err) \<Rightarrow> (Inl err, says evs c1)
         | (evs, Inr cookieHeader) \<Rightarrow>
             (let c2 = says (evs @ [Fetch SpacePage (spaceUrl cfg) cookieHeader]) c1
              in case f of
                   Rejects err ms \<Rightarrow> (Inl err, tick ms c2)
                 | Resolves r \<Rightarrow>
                     (let c3 = applySetCookie P (spaceUrl cfg) (setCookie r) (tick (headersMs r) c2);
                          c4 = tick (bodyMs r) c3
                      in case bodyText r of
                           Inl err \<Rightarrow> (Inl err, c4)
                         | Inr html \<Rightarrow>
                             if statusCode r \<noteq> 200
                             then (Inr None, says [Log Failure (SpaceHttpError (statusCode r))] c4)
                             else (case extractIframeUrl P html of
                                     (evs', iframeUrl) \<Rightarrow> (Inr iframeUrl, says evs' c4)))))"

definition getIframeUrl :: "platform \<Rightarrow> Config \<Rightarrow> fetch \<Rightarrow> cycle \<Rightarrow> string option \<times> cycle" where
  "getIframeUrl P cfg f c =
     (case getIframeUrl_try P cfg f c of
        (Inl err, c') \<Rightarrow> (None, says [Log Failure (SpaceException err)] c')
      | (Inr iframeUrl, c') \<Rightarrow> (iframeUrl, c'))"

text \<open>
  Target resolution, the first part of the \<open>try\<close> block of \<open>keepAlive\<close>: the URL taken
  from the wrapper page when one is configured and yields one, else the configured
  \<open>targetUrl\<close>, else nothing.
\<close>

definition resolveTarget :: "platform \<Rightarrow> Config \<Rightarrow> attempt_env \<Rightarrow> cycle \<Rightarrow> string option \<times> cycle" where
  "resolveTarget P cfg e c =
     (case (if spaceUrl cfg \<noteq> [] then getIframeUrl P cfg (space e) c else (None, c)) of
        (iframeUrl, c1) \<Rightarrow>
          (case (case iframeUrl of None \<Rightarrow> None | Some u \<Rightarrow> if u \<noteq> [] then Some u else None) of
             Some u \<Rightarrow> (Some u, c1)
           | None \<Rightarrow>
               if targetUrl cfg \<noteq> [] then (Some (targetUrl cfg), says [Log Info UsingFallback] c1)
               else (None, says [Log Failure NoTargetUrl] c1)))"

subsection \<open>keepAlive\<close>

text \<open>How one pass through the loop body ends: \<open>continue\<close>, \<open>return\<close>, or a throw.\<close>

datatype control = Continue | Return | Throw thrown

text \<open>
  \<open>await pushToUptimeKuma(status, msg, ping); return\<close>: the call is recorded, then its
  events; should the call throw, so does this statement.
\<close>

definition report :: "platform \<Rightarrow> Config \<Rightarrow> fetch \<Rightarrow> up_status \<Rightarrow> push_msg \<Rightarrow> nat option
    \<Rightarrow> cycle \<Rightarrow> control \<times> cycle" where
  "report P cfg f status msg ping c =
     (case pushToUptimeKuma P cfg f status msg ping of
        (evs, Some err) \<Rightarrow> (Throw err, says (Report status msg ping # evs) c)
      | (evs, None) \<Rightarrow> (Return, says (Report status msg ping # evs) c))"

text \<open>
  The end of every failing branch, five times in the source: while attempts remain, log,
  sleep two seconds and continue; on the last attempt push "down" and return.
\<close>

definition retryOrReport :: "platform \<Rightarrow> Config \<Rightarrow> int \<Rightarrow> fetch \<Rightarrow> push_msg \<Rightarrow> nat option
    \<Rightarrow> cycle \<Rightarrow> control \<times> cycle" where
  "retryOrReport P cfg attempt f msg ping c =
     (if attempt < maxRetries cfg
      then (Continue, tick 2000 (says [Log Info RetryWait, Sleep 2000] c))
      else report P cfg f Down msg ping c)"

text \<open>
  The classification of a response that was read: the \<open>if\<close> chain on
  \<open>hasFailureMarker\<close> and \<open>isExpectedStatusCode\<close>.
\<close>

definition handleResponse :: "platform \<Rightarrow> Config \<Rightarrow> int \<Rightarrow> fetch \<Rightarrow> int \<Rightarrow> string \<Rightarrow> nat
    \<Rightarrow> cycle \<Rightarrow> control \<times> cycle" where
  "handleResponse P cfg attempt f status responseBody responseTime c =
     (let hasFailureMarker = containsFailureMarker responseBody;
          isExpectedStatusCode = (status \<in> set (expectedStatusCodes cfg))
      in if hasFailureMarker then
           retryOrReport P cfg attempt f (MsgFailureMarker status) None
             (noted (ContentFailure status responseTime)
               (says [Log Failure MarkerDetected, Log Failure (MarkerStatus status),
                      Log Failure MarkerReason] c
                  \<lparr>lastError := True\<rparr>))
         else if \<not> isExpectedStatusCode then
           retryOrReport P cfg attempt f (MsgUnexpectedStatus status) (Some responseTime)
             (noted (UnexpectedStatus status responseTime)
               (says [Log Warning (UnexpectedCode status),
                      Log Warning (ExpectedCodes (expectedStatusCodes cfg)),
                      Log Warning (BodyPreview (take 200 responseBody))] c
                  \<lparr>lastError := True\<rparr>))
         else
           report P cfg f Up MsgOK (Some responseTime)
             (noted (Success status responseTime)
               (says [Log Info (KeepAliveOk status responseTime)] c)))"

text \<open>
  The \<open>try\<close> block of the loop body. \<open>startTime\<close> is read before the target is
  resolved, \<open>responseTime\<close> when \<open>request\<close> has resolved and before the body is read.
\<close>

definition tryBody :: "platform \<Rightarrow> Config \<Rightarrow> int \<Rightarrow> attempt_env \<Rightarrow> cycle \<Rightarrow> control \<times> cycle" where
  "tryBody P cfg attempt e c =
     (let startTime = now c
      in case resolveTarget P cfg e c of
           (None, c1) \<Rightarrow> report P cfg (monitor e) Down MsgNoTargetUrl None (noted NoTarget c1)
         | (Some url, c1) \<Rightarrow>
             (let c2 = says [Log Info (Visiting url)] c1
              in case serializeCookie P (jar_of c2) url of
                   (evs, Inl err) \<Rightarrow> (Throw err, says evs c2)
                 | (evs, Inr cookieHeader) \<Rightarrow>
                     (let c3 = says (evs @ [Fetch Target url cookieHeader]) c2
                      in case target e of
                           Rejects err ms \<Rightarrow> (Throw err, tick ms c3)
                         | Resolves r \<Rightarrow>
                             (let c4 = tick (headersMs r) c3;
                                  responseTime = now c4 - startTime;
                                  c5 = applySetCookie P url (setCookie r) c4;
                                  c6 = tick (bodyMs r) c5
                              in case bodyText r of
                                   Inl err \<Rightarrow> (Throw err, c6)
                                 | Inr responseBody \<Rightarrow>
                                     handleResponse P cfg attempt (monitor e) (statusCode r)
                                       responseBody responseTime c6))))"

text \<open>
  The \<open>catch\<close> block: an \<open>Error\<close> is told apart by its name and code for the log
  line and the message pushed; any other value is an unknown error.
\<close>

definition isTimeout :: "string \<Rightarrow> bool" where
  "isTimeout name = (name = ''HeadersTimeoutError'' \<or> name = ''BodyTimeoutError'')"

definition catchBlock :: "platform \<Rightarrow> Config \<Rightarrow> int \<Rightarrow> fetch \<Rightarrow> thrown \<Rightarrow> cycle \<Rightarrow> control \<times> cycle" where
  "catchBlock P cfg attempt f err c =
     (case err of
        ErrorObj name code message \<Rightarrow>
          retryOrReport P cfg attempt f
            (if isTimeout name then MsgTimeout
             else if code = ''UND_ERR_CONNECT'' then MsgConnect
             else MsgUnknownError message) None
            (noted (TransportError err)
              (says [Log Failure (if isTimeout name then ReqTimeout
                                  else if code = ''UND_ERR_CONNECT'' then ConnectFailed
                                  else UnknownError message)] c
                 \<lparr>lastError := True\<rparr>))
      | NonError v \<Rightarrow>
          retryOrReport P cfg attempt f MsgUnknown None
            (noted (TransportError err)
              (says [Log Failure (UnknownError v)] c \<lparr>lastError := True\<rparr>)))"

definition iteration :: "platform \<Rightarrow> Config \<Rightarrow> int \<Rightarrow> attempt_env \<Rightarrow> cycle \<Rightarrow> control \<times> cycle" where
  "iteration P cfg attempt e c =
     (case tryBody P cfg attempt e c of
        (Throw err, c') \<Rightarrow> catchBlock P cfg attempt (monitor e) err c'
      | (Continue, c') \<Rightarrow> (Continue, c')
      | (Return, c') \<Rightarrow> (Return, c'))"

text \<open>
  The retry loop, \<open>for (attempt = 1; attempt <= maxRetries; attempt++)\<close>, over the
  network's behaviour \<open>W\<close> in each attempt. The result is what \<open>keepAlive\<close> throws, if
  anything, and the final state.
\<close>

function keepAlive_loop :: "platform \<Rightarrow> Config \<Rightarrow> (int \<Rightarrow> attempt_env) \<Rightarrow> int \<Rightarrow> cycle
    \<Rightarrow> thrown option \<times> cycle" where
  "keepAlive_loop P cfg W attempt c =
     (if attempt \<le> maxRetries cfg then
        (case iteration P cfg attempt (W attempt) c of
           (Continue, c') \<Rightarrow> keepAlive_loop P cfg W (attempt + 1) c'
         | (Return, c') \<Rightarrow> (None, c')
         | (Throw err, c') \<Rightarrow> (Some err, c'))
      else (None, if lastError c then says [Log Failure AllRetriesFailed] c else c))"
  by pat_completeness auto
termination
  by (relation "measure (\<lambda>(P, cfg, W, attempt, c). nat (maxRetries cfg + 1 - attempt))") auto

definition keepAlive :: "platform \<Rightarrow> Config \<Rightarrow> (int \<Rightarrow> attempt_env) \<Rightarrow> jar \<Rightarrow> nat
    \<Rightarrow> thrown option \<times> cycle" where
  "keepAlive P cfg W j t0 =
     keepAlive_loop P cfg W 1
       \<lparr>jar_of = j, now = t0, trace = [], lastError = False, attempts = []\<rparr>"

subsection \<open>What a trace shows of a cycle\<close>

text \<open>
  The steps of a cycle that the retry policy is about: a request to the target, a delay,
  a call of the notifier. Log lines, requests to the wrapper page and the GET sent to the
  monitor are no steps.
\<close>

datatype step = Attempt | Wait nat | Notify up_status push_msg "nat option"

fun step_of :: "event \<Rightarrow> step list" where
  "step_of (Fetch w url h) = (case w of Target \<Rightarrow> [Attempt] | SpacePage \<Rightarrow> [])"
| "step_of (Sleep ms) = [Wait ms]"
| "step_of (Report s m p) = [Notify s m p]"
| "step_of (Log l m) = []"
| "step_of (MonitorGet u s m p) = []"

definition shape :: "event list \<Rightarrow> step list" where
  "shape evs = concat (map step_of evs)"

text \<open>The outcomes after which the loop goes on while attempts remain.\<close>

fun retryable :: "outcome \<Rightarrow> bool" where
  "retryable (Success s t) = False"
| "retryable NoTarget = False"
| "retryable (ContentFailure s t) = True"
| "retryable (UnexpectedStatus s t) = True"
| "retryable (TransportError err) = True"

fun error_msg :: "thrown \<Rightarrow> push_msg" where
  "error_msg (ErrorObj name code message) =
     (if name = ''HeadersTimeoutError'' \<or> name = ''BodyTimeoutError'' then MsgTimeout
      else if code = ''UND_ERR_CONNECT'' then MsgConnect
      else MsgUnknownError message)"
| "error_msg (NonError v) = MsgUnknown"

text \<open>The notification that ends a cycle whose last attempt had the given outcome.\<close>

fun terminal_report :: "outcome \<Rightarrow> step" where
  "terminal_report (Success s t) = Notify Up MsgOK (Some t)"
| "terminal_report (ContentFailure s t) = Notify Down (MsgFailureMarker s) None"
| "terminal_report (UnexpectedStatus s t) = Notify Down (MsgUnexpectedStatus s) (Some t)"
| "terminal_report (TransportError err) = Notify Down (error_msg err) None"
| "terminal_report NoTarget = Notify Down MsgNoTargetUrl None"

definition tail_steps :: "bool \<Rightarrow> outcome \<Rightarrow> step list" where
  "tail_steps again out = (if retryable out \<and> again then [Wait 2000] else [terminal_report out])"

definition next_control :: "bool \<Rightarrow> outcome \<Rightarrow> control" where
  "next_control again out = (if retryable out \<and> again then Continue else Return)"

text \<open>
  The steps an attempt shows before its outcome is handled: the request to the target,
  unless there was no target or something was thrown before the request was issued.
\<close>

fun lead_ok :: "outcome \<Rightarrow> step list \<Rightarrow> bool" where
  "lead_ok NoTarget pre = (pre = [])"
| "lead_ok (TransportError err) pre = (pre = [] \<or> pre = [Attempt])"
| "lead_ok out pre = (pre = [Attempt])"

definition lead :: "outcome \<Rightarrow> step list" where
  "lead out = (if out = NoTarget then [] else [Attempt])"

definition response_outcome :: "Config \<Rightarrow> int \<Rightarrow> string \<Rightarrow> nat \<Rightarrow> outcome" where
  "response_outcome cfg status body rt =
     (if containsFailureMarker body then ContentFailure status rt
      else if status \<notin> set (expectedStatusCodes cfg) then UnexpectedStatus status rt
      else Success status rt)"

text \<open>
  The steps of a whole cycle, from the steps each attempt shows first and its outcome:
  a delay after every attempt but the last, the notification after the last.
\<close>

fun cycle_shape :: "(step list \<times> outcome) list \<Rightarrow> step list" where
  "cycle_shape [] = []"
| "cycle_shape [(pre, out)] = pre @ [terminal_report out]"
| "cycle_shape ((pre, out) # rest) = pre @ [Wait 2000] @ cycle_shape rest"

fun is_notify :: "step \<Rightarrow> bool" where
  "is_notify (Notify s m p) = True"
| "is_notify other = False"

subsection \<open>What a batch of directives asks for\<close>

text \<open>
  The name and value a \<open>Set-Cookie\<close> directive contributes: none when the directive
  fails to parse, and none when it parses without a name or without a non-empty value.
\<close>

definition directive_pair :: "platform \<Rightarrow> string \<Rightarrow> (string \<times> string) option" where
  "directive_pair P h =
     (case parseSetCookie P h of
        Inl err \<Rightarrow> None
      | Inr parsed \<Rightarrow>
          (case (sc_name parsed, sc_value parsed) of
             (Some name, Some val) \<Rightarrow> if name \<noteq> [] \<and> val \<noteq> [] then Some (name, val) else None
           | _ \<Rightarrow> None))"

definition parse_fails :: "platform \<Rightarrow> string \<Rightarrow> bool" where
  "parse_fails P h = (case parseSetCookie P h of Inl err \<Rightarrow> True | Inr parsed \<Rightarrow> False)"

definition apply_directive :: "platform \<Rightarrow> CookieObject \<Rightarrow> string \<Rightarrow> CookieObject" where
  "apply_directive P obj h =
     (case directive_pair P h of None \<Rightarrow> obj | Some (name, val) \<Rightarrow> obj_set name val obj)"

text \<open>
  The name and value a directive leaves in the cookie object: those it contributes, unless
  the name is \<open>__proto__\<close>, which the assignment does not store.
\<close>

definition stored_pair :: "platform \<Rightarrow> string \<Rightarrow> (string \<times> string) option" where
  "stored_pair P h =
     (case directive_pair P h of
        None \<Rightarrow> None
      | Some (name, val) \<Rightarrow> if name = ''__proto__'' then None else Some (name, val))"

fun is_warning :: "event \<Rightarrow> bool" where
  "is_warning (Log l m) = (l = Warning)"
| "is_warning other = False"

text \<open>
  A well-formed jar: every domain has one entry, every reference points into the heap, and
  no two domains hold the same reference (no two domains share a cookie object).
\<close>

definition jar_wf :: "jar \<Rightarrow> bool" where
  "jar_wf j = (distinct (map fst (cookieStorage j)) \<and> distinct (map snd (cookieStorage j))
     \<and> (\<forall>a \<in> set (map snd (cookieStorage j)). a < length (heap j)))"

subsection \<open>Latency and the monitor in a trace\<close>

text \<open>
  The time from the moment a request is issued until its body has been read, in the
  words of the latency claim.
\<close>

definition request_to_body_ms :: "fetch \<Rightarrow> nat option" where
  "request_to_body_ms f = (case f of Rejects err ms \<Rightarrow> None | Resolves r \<Rightarrow> Some (headersMs r + bodyMs r))"

text \<open>The status code and response time an outcome carries.\<close>

fun timed :: "outcome \<Rightarrow> (int \<times> nat) option" where
  "timed (Success s t) = Some (s, t)"
| "timed (ContentFailure s t) = Some (s, t)"
| "timed (UnexpectedStatus s t) = Some (s, t)"
| "timed other = None"

text \<open>
  The events of \<open>pushToUptimeKuma\<close>: its request to the monitor and its log lines.
  The other events of a trace are those of the poll cycle proper.
\<close>

fun is_monitor_event :: "event \<Rightarrow> bool" where
  "is_monitor_event (MonitorGet u s m p) = True"
| "is_monitor_event (Log l m) =
     (case m of KumaPushing s \<Rightarrow> True | KumaPushOk \<Rightarrow> True | KumaPushRejected t \<Rightarrow> True
      | KumaPushHttp i \<Rightarrow> True | KumaPushException e \<Rightarrow> True | _ \<Rightarrow> False)"
| "is_monitor_event other = False"

fun is_monitor_get :: "event \<Rightarrow> bool" where
  "is_monitor_get (MonitorGet u s m p) = True"
| "is_monitor_get other = False"

definition program_events :: "event list \<Rightarrow> event list" where
  "program_events evs = filter (\<lambda>ev. \<not> is_monitor_event ev) evs"

definition same_but_monitor :: "cycle \<Rightarrow> cycle \<Rightarrow> bool" where
  "same_but_monitor c1 c2 =
     (jar_of c1 = jar_of c2 \<and> now c1 = now c2 \<and> lastError c1 = lastError c2
      \<and> attempts c1 = attempts c2 \<and> program_events (trace c1) = program_events (trace c2))"

text \<open>
  The request one call of \<open>pushToUptimeKuma\<close> sends to the monitor: none when the
  monitor is not configured or not enabled, none when \<open>new URL\<close> refuses the push URL
  (the \<open>catch\<close> block logs it), and otherwise the one GET with the status, the
  message and the latency of the call.
\<close>

definition monitor_request :: "platform \<Rightarrow> Config \<Rightarrow> up_status \<Rightarrow> push_msg \<Rightarrow> nat option \<Rightarrow> event list" where
  "monitor_request P cfg status msg ping =
     (case uptimeKuma cfg of
        None \<Rightarrow> []
      | Some k \<Rightarrow>
          if \<not> enabled k then []
          else (case url_hostname P (pushUrl k) of
                  Inl err \<Rightarrow> []
                | Inr h \<Rightarrow> [MonitorGet (pushUrl k) status msg ping]))"

text \<open>The requests that belong to a step of a cycle: only a call of the notifier has any.\<close>

fun step_requests :: "platform \<Rightarrow> Config \<Rightarrow> step \<Rightarrow> event list" where
  "step_requests P cfg (Notify s m p) = monitor_request P cfg s m p"
| "step_requests P cfg other = []"

text \<open>
  A trace in which the requests sent to the monitor are those of its calls of the notifier,
  in the same order.
\<close>

definition requests_match :: "platform \<Rightarrow> Config \<Rightarrow> event list \<Rightarrow> bool" where
  "requests_match P cfg evs =
     (filter is_monitor_get evs = concat (map (step_requests P cfg) (shape evs)))"

subsection \<open>Sample inputs\<close>

text \<open>
  A platform that answers as the libraries do on the few strings the examples use: four
  URLs with their host names, one seed cookie string, four \<open>Set-Cookie\<close>
  directives of the form name=value (every other directive is read as a value without a
  name, as \<open>parseSetCookie\<close> reads a string without an equals sign), one
  wrapper page, one JSON document. Then configurations, jars, and what the network does in
  every attempt of a cycle.
\<close>

definition dq :: string where
  "dq = [CHR 0x22]"

definition iframe_page :: string where
  "iframe_page = ''<iframe class='' @ dq @ ''space-iframe'' @ dq @ '' src='' @ dq
     @ ''https://u-s.example/?__sign=tok'' @ dq @ ''></iframe>''"

definition ok_body :: string where
  "ok_body = ''{'' @ dq @ ''ok'' @ dq @ '':true}''"

definition sample_platform :: platform where
  "sample_platform =
     \<lparr>url_hostname = (\<lambda>u.
         if u = ''https://host/spaces/u/s'' then Inr ''host''
         else if u = ''https://u-s.example/?__sign=tok'' then Inr ''u-s.example''
         else if u = ''https://direct.example/app'' then Inr ''direct.example''
         else if u = ''https://kuma.example/api/push/k'' then Inr ''kuma.example''
         else Inl (ErrorObj ''TypeError'' ''ERR_INVALID_URL'' ''Invalid URL'')),
      parseCookie = (\<lambda>s. if s = ''spaces-jwt=seed'' then Inr [(''spaces-jwt'', Some ''seed'')] else Inr []),
      stringifyCookie = (\<lambda>obj. Inr (case obj of [] \<Rightarrow> []
         | (k, v) # rest \<Rightarrow> k @ ''='' @ v @ concat (map (\<lambda>(k, v). ''; '' @ k @ ''='' @ v) rest))),
      parseSetCookie = (\<lambda>h.
         if h = ''spaces-jwt=abc; Path=/; HttpOnly''
         then Inr \<lparr>sc_name = Some ''spaces-jwt'', sc_value = Some ''abc''\<rparr>
         else if h = ''session=xyz''
         then Inr \<lparr>sc_name = Some ''session'', sc_value = Some ''xyz''\<rparr>
         else if h = ''__proto__=abc''
         then Inr \<lparr>sc_name = Some ''__proto__'', sc_value = Some ''abc''\<rparr>
         else if h = ''empty=''
         then Inr \<lparr>sc_name = Some ''empty'', sc_value = Some []\<rparr>
         else Inr \<lparr>sc_name = Some [], sc_value = Some h\<rparr>),
      select_space_iframe = (\<lambda>html.
         if html = iframe_page
         then Inr [Some ''https://u-s.example/?__sign=tok''] else Inr []),
      json_parse = (\<lambda>s. if s = ok_body then Inr (JsonValue True [])
         else Inl (ErrorObj ''SyntaxError'' [] ''Unexpected token''))\<rparr>"

definition direct_config :: Config where
  "direct_config =
     \<lparr>spaceUrl = [], targetUrl = ''https://direct.example/app'', cookie = ''spaces-jwt=seed'',
      interval = 30000, expectedStatusCodes = [200], maxRetries = 3,
      uptimeKuma = Some \<lparr>pushUrl = ''https://kuma.example/api/push/k'', enabled = True\<rparr>\<rparr>"

text \<open>The same configuration without a monitor, and with a monitor that is switched off.\<close>

definition unmonitored_config :: Config where
  "unmonitored_config = direct_config\<lparr>uptimeKuma := None\<rparr>"

definition monitor_off_config :: Config where
  "monitor_off_config =
     direct_config\<lparr>uptimeKuma := Some \<lparr>pushUrl = ''https://kuma.example/api/push/k'', enabled = False\<rparr>\<rparr>"

definition empty_jar :: jar where
  "empty_jar = \<lparr>cookieStorage = [], heap = []\<rparr>"

definition reply :: "int \<Rightarrow> string \<Rightarrow> nat \<Rightarrow> nat \<Rightarrow> fetch" where
  "reply status body h b =
     Resolves \<lparr>statusCode = status, setCookie = Absent, headersMs = h, bodyText = Inr body, bodyMs = b\<rparr>"

definition refused :: fetch where
  "refused = Rejects (ErrorObj ''Error'' ''UND_ERR_CONNECT'' ''connect ECONNREFUSED'') 5"

definition world_503 :: "int \<Rightarrow> attempt_env" where
  "world_503 k = \<lparr>space = refused, target = reply 503 ''Service Unavailable'' 40 10, monitor = reply 200 ok_body 3 1\<rparr>"

definition fresh_cycle :: cycle where
  "fresh_cycle = \<lparr>jar_of = empty_jar, now = 0, trace = [], lastError = False, attempts = []\<rparr>"

definition wrapper_only_config :: Config where
  "wrapper_only_config =
     \<lparr>spaceUrl = ''https://host/spaces/u/s'', targetUrl = [], cookie = ''spaces-jwt=seed'',
      interval = 30000, expectedStatusCodes = [200], maxRetries = 3,
      uptimeKuma = Some \<lparr>pushUrl = ''https://kuma.example/api/push/k'', enabled = True\<rparr>\<rparr>"

text \<open>The wrapper page answers 500 in every attempt.\<close>

definition world_no_page :: "int \<Rightarrow> attempt_env" where
  "world_no_page k =
     \<lparr>space = reply 500 ''Internal Server Error'' 20 5, target = reply 200 ''Running'' 40 10,
      monitor = reply 200 ok_body 3 1\<rparr>"

text \<open>The target answers 200 with the page of a deployment that is gone, in every attempt.\<close>

definition world_gone :: "int \<Rightarrow> attempt_env" where
  "world_gone k =
     \<lparr>space = refused,
      target = reply 200 ''<img src=https://huggingface.co/front/assets/huggingface_logo.svg>'' 25 15,
      monitor = reply 200 ok_body 3 1\<rparr>"

definition both_config :: Config where
  "both_config =
     \<lparr>spaceUrl = ''https://host/spaces/u/s'', targetUrl = ''https://direct.example/app'',
      cookie = ''spaces-jwt=seed'', interval = 30000, expectedStatusCodes = [200], maxRetries = 3,
      uptimeKuma = Some \<lparr>pushUrl = ''https://kuma.example/api/push/k'', enabled = True\<rparr>\<rparr>"

definition world_up :: "int \<Rightarrow> attempt_env" where
  "world_up k = \<lparr>space = reply 200 iframe_page 100 50, target = reply 200 ''Running'' 30 20,
      monitor = reply 200 ok_body 3 1\<rparr>"



definition world_up_monitor_down :: "int \<Rightarrow> attempt_env" where
  "world_up_monitor_down k = (world_up k)\<lparr>monitor := refused\<rparr>"

definition seeded_jar :: jar where
  "seeded_jar = \<lparr>cookieStorage = [(''direct.example'', 0)], heap = [[(''spaces-jwt'', ''seed'')]]\<rparr>"

section \<open>Properties\<close>

subsection \<open>What each function adds to the state\<close>

declare keepAlive_loop.simps [simp del]

lemma shape_simps [simp]:
  "shape [] = []"
  "shape (ev # evs) = step_of ev @ shape evs"
  "shape (xs @ ys) = shape xs @ shape ys"
  by (simp_all add: shape_def)

lemma says_fields [simp]:
  "trace (says evs c) = trace c @ evs"
  "attempts (says evs c) = attempts c"
  "now (says evs c) = now c"
  "jar_of (says evs c) = jar_of c"
  "lastError (says evs c) = lastError c"
  by (simp_all add: says_def)

lemma tick_fields [simp]:
  "trace (tick ms c) = trace c"
  "attempts (tick ms c) = attempts c"
  "now (tick ms c) = now c + ms"
  "jar_of (tick ms c) = jar_of c"
  "lastError (tick ms c) = lastError c"
  by (simp_all add: tick_def)

lemma noted_fields [simp]:
  "trace (noted out c) = trace c"
  "attempts (noted out c) = attempts c @ [out]"
  "now (noted out c) = now c"
  "jar_of (noted out c) = jar_of c"
  "lastError (noted out c) = lastError c"
  by (simp_all add: noted_def)

lemma updateOne_shape:
  "updateOne P a (j, n, evs) h = (j', n', evs') \<Longrightarrow> shape evs' = shape evs"
  by (auto simp: updateOne_def split: sum.splits option.splits if_splits)

lemma updateLoop_shape:
  "foldl (updateOne P a) (j, n, evs) hs = (j', n', evs') \<Longrightarrow> shape evs' = shape evs"
proof (induction hs arbitrary: j n evs)
  case Nil
  then show ?case by simp
next
  case (Cons h hs)
  obtain j1 n1 evs1 where s: "updateOne P a (j, n, evs) h = (j1, n1, evs1)"
    by (cases "updateOne P a (j, n, evs) h") auto
  with Cons show ?case using updateOne_shape[OF s] by simp
qed

lemma updateCookies_shape:
  "updateCookies P j url hs = (j', n, evs) \<Longrightarrow> shape evs = []"
  by (auto simp: updateCookies_def Let_def split: if_splits prod.splits dest: updateLoop_shape)

lemma applySetCookie_fields [simp]:
  "attempts (applySetCookie P url hv c) = attempts c"
  "now (applySetCookie P url hv c) = now c"
  "lastError (applySetCookie P url hv c) = lastError c"
  "shape (trace (applySetCookie P url hv c)) = shape (trace c)"
  by (auto simp: applySetCookie_def Let_def split: prod.splits dest: updateCookies_shape)

lemma serializeCookie_shape:
  "serializeCookie P j url = (evs, r) \<Longrightarrow> shape evs = []"
  by (auto simp: serializeCookie_def Let_def split: option.splits)

lemma extractIframeUrl_shape:
  "extractIframeUrl P html = (evs, r) \<Longrightarrow> shape evs = []"
  by (auto simp: extractIframeUrl_def split: sum.splits list.splits option.splits if_splits)

lemma getIframeUrl_try_fields:
  "getIframeUrl_try P cfg f c = (r, c') \<Longrightarrow>
     attempts c' = attempts c \<and> lastError c' = lastError c \<and> shape (trace c') = shape (trace c)"
  by (auto simp: getIframeUrl_try_def Let_def
      split: prod.splits sum.splits fetch.splits if_splits
      dest: serializeCookie_shape extractIframeUrl_shape)

lemma getIframeUrl_fields:
  "getIframeUrl P cfg f c = (r, c') \<Longrightarrow>
     attempts c' = attempts c \<and> lastError c' = lastError c \<and> shape (trace c') = shape (trace c)"
  by (auto simp: getIframeUrl_def split: prod.splits sum.splits dest: getIframeUrl_try_fields)

lemma resolveTarget_fields:
  "resolveTarget P cfg e c = (r, c') \<Longrightarrow>
     attempts c' = attempts c \<and> lastError c' = lastError c \<and> shape (trace c') = shape (trace c)"
  by (auto simp: resolveTarget_def split: prod.splits option.splits if_splits dest: getIframeUrl_fields)

lemma pushTry_shape: "pushTry P k f st m p = (evs, r) \<Longrightarrow> shape evs = []"
  by (auto simp: pushTry_def Let_def split: sum.splits fetch.splits json_reply.splits if_splits)

lemma pushToUptimeKuma_shape: "pushToUptimeKuma P cfg f st m p = (evs, r) \<Longrightarrow> shape evs = [] \<and> r = None"
  by (auto simp: pushToUptimeKuma_def split: option.splits if_splits prod.splits dest: pushTry_shape)

lemma report_char:
  "report P cfg f st m p c = (ctl, c') \<Longrightarrow>
     ctl = Return \<and> attempts c' = attempts c \<and> now c' = now c \<and> lastError c' = lastError c
     \<and> jar_of c' = jar_of c
     \<and> shape (trace c') = shape (trace c) @ [Notify st m p]"
  by (auto simp: report_def split: prod.splits option.splits dest: pushToUptimeKuma_shape)

lemma retryOrReport_char:
  "retryOrReport P cfg a f m p c = (ctl, c') \<Longrightarrow>
     attempts c' = attempts c \<and> lastError c' = lastError c \<and> jar_of c' = jar_of c \<and>
     (if a < maxRetries cfg
      then ctl = Continue \<and> shape (trace c') = shape (trace c) @ [Wait 2000] \<and> now c' = now c + 2000
      else ctl = Return \<and> shape (trace c') = shape (trace c) @ [Notify Down m p] \<and> now c' = now c)"
  by (auto simp: retryOrReport_def split: if_splits dest: report_char)

lemma handleResponse_all:
  assumes "handleResponse P cfg a f status body rt c = (ctl, c')"
  shows "attempts c' = attempts c @ [response_outcome cfg status body rt]
      \<and> ctl = next_control (a < maxRetries cfg) (response_outcome cfg status body rt)
      \<and> shape (trace c') =
          shape (trace c) @ tail_steps (a < maxRetries cfg) (response_outcome cfg status body rt)
      \<and> now c' = now c + (if ctl = Continue then 2000 else 0)
      \<and> jar_of c' = jar_of c"
proof -
  consider (cf) "containsFailureMarker body"
    | (us) "\<not> containsFailureMarker body" "status \<notin> set (expectedStatusCodes cfg)"
    | (ok) "\<not> containsFailureMarker body" "status \<in> set (expectedStatusCodes cfg)"
    by blast
  then show ?thesis
  proof cases
    case cf
    with assms obtain c0 where
      r: "retryOrReport P cfg a f (MsgFailureMarker status) None c0 = (ctl, c')"
      and c0: "attempts c0 = attempts c @ [ContentFailure status rt]"
        "shape (trace c0) = shape (trace c)" "now c0 = now c" "jar_of c0 = jar_of c"
      by (simp add: handleResponse_def)
    from retryOrReport_char[OF r] c0 cf show ?thesis
      by (simp add: response_outcome_def next_control_def tail_steps_def split: if_splits)
  next
    case us
    with assms obtain c0 where
      r: "retryOrReport P cfg a f (MsgUnexpectedStatus status) (Some rt) c0 = (ctl, c')"
      and c0: "attempts c0 = attempts c @ [UnexpectedStatus status rt]"
        "shape (trace c0) = shape (trace c)" "now c0 = now c" "jar_of c0 = jar_of c"
      by (simp add: handleResponse_def)
    from retryOrReport_char[OF r] c0 us show ?thesis
      by (simp add: response_outcome_def next_control_def tail_steps_def split: if_splits)
  next
    case ok
    with assms obtain c0 where
      r: "report P cfg f Up MsgOK (Some rt) c0 = (ctl, c')"
      and c0: "attempts c0 = attempts c @ [Success status rt]"
        "shape (trace c0) = shape (trace c)" "now c0 = now c" "jar_of c0 = jar_of c"
      by (simp add: handleResponse_def)
    from report_char[OF r] c0 ok show ?thesis
      by (simp add: response_outcome_def next_control_def tail_steps_def)
  qed
qed

lemma handleResponse_char:
  assumes "handleResponse P cfg a f status body rt c = (ctl, c')"
  shows "attempts c' = attempts c @ [response_outcome cfg status body rt]"
    and "ctl = next_control (a < maxRetries cfg) (response_outcome cfg status body rt)"
    and "shape (trace c') =
          shape (trace c) @ tail_steps (a < maxRetries cfg) (response_outcome cfg status body rt)"
    and "now c' = now c + (if ctl = Continue then 2000 else 0)"
  using handleResponse_all[OF assms] by simp_all

lemma catchBlock_char:
  assumes "catchBlock P cfg a f err c = (ctl, c')"
  shows "attempts c' = attempts c @ [TransportError err]
      \<and> ctl = next_control (a < maxRetries cfg) (TransportError err)
      \<and> shape (trace c') = shape (trace c) @ tail_steps (a < maxRetries cfg) (TransportError err)"
  using assms
  by (auto simp: catchBlock_def isTimeout_def next_control_def tail_steps_def
      split: thrown.splits if_splits dest!: retryOrReport_char)

lemma next_control_cases: "next_control b out = Continue \<or> next_control b out = Return"
  by (simp add: next_control_def)

lemma tryBody_char:
  assumes "tryBody P cfg a e c = (ctl, c')"
  shows "case ctl of
           Throw err \<Rightarrow> attempts c' = attempts c
              \<and> (shape (trace c') = shape (trace c) \<or> shape (trace c') = shape (trace c) @ [Attempt])
         | _ \<Rightarrow> (\<exists>out. (\<forall>err. out \<noteq> TransportError err) \<and> attempts c' = attempts c @ [out]
              \<and> ctl = next_control (a < maxRetries cfg) out
              \<and> shape (trace c') = shape (trace c) @ lead out @ tail_steps (a < maxRetries cfg) out)"
proof -
  obtain r c1 where rt: "resolveTarget P cfg e c = (r, c1)" by (cases "resolveTarget P cfg e c")
  note f1 = resolveTarget_fields[OF rt]
  show ?thesis
  proof (cases r)
    case None
    with assms rt have "report P cfg (monitor e) Down MsgNoTargetUrl None (noted NoTarget c1) = (ctl, c')"
      by (simp add: tryBody_def)
    from report_char[OF this] f1 show ?thesis
      by (auto simp: next_control_def tail_steps_def lead_def intro!: exI[of _ NoTarget])
  next
    case (Some url)
    obtain evs ch where sc: "serializeCookie P (jar_of (says [Log Info (Visiting url)] c1)) url = (evs, ch)"
      by (cases "serializeCookie P (jar_of (says [Log Info (Visiting url)] c1)) url")
    note f2 = serializeCookie_shape[OF sc]
    show ?thesis
    proof (cases ch)
      case (Inl err)
      with assms rt Some sc f1 f2 show ?thesis by (auto simp: tryBody_def Let_def)
    next
      case (Inr cookieHeader)
      show ?thesis
      proof (cases "target e")
        case (Rejects err ms)
        with assms rt Some sc Inr f1 f2 show ?thesis by (auto simp: tryBody_def Let_def)
      next
        case (Resolves resp)
        show ?thesis
        proof (cases "bodyText resp")
          case (Inl err)
          with assms rt Some sc Inr Resolves f1 f2 show ?thesis by (auto simp: tryBody_def Let_def)
        next
          case (Inr responseBody)
          with assms rt Some sc \<open>ch = Inr cookieHeader\<close> Resolves
          obtain c6 rtm where h: "handleResponse P cfg a (monitor e) (statusCode resp) responseBody rtm c6 = (ctl, c')"
            and c6: "attempts c6 = attempts c1" "shape (trace c6) = shape (trace c1) @ [Attempt]"
            using f2 by (auto simp: tryBody_def Let_def)
          define out where "out = response_outcome cfg (statusCode resp) responseBody rtm"
          have ne: "\<forall>err. out \<noteq> TransportError err" "lead out = [Attempt]"
            by (simp_all add: out_def response_outcome_def lead_def)
          note hr = handleResponse_char(1,2,3)[OF h, folded out_def]
          have ex: "\<exists>out. (\<forall>err. out \<noteq> TransportError err) \<and> attempts c' = attempts c @ [out]
              \<and> ctl = next_control (a < maxRetries cfg) out
              \<and> shape (trace c') = shape (trace c) @ lead out @ tail_steps (a < maxRetries cfg) out"
            using hr c6 f1 ne by (intro exI[of _ out]) simp
          have "ctl = Continue \<or> ctl = Return"
            using next_control_cases[of "a < maxRetries cfg" out] hr(2) by simp
          then show ?thesis using ex by auto
        qed
      qed
    qed
  qed
qed

lemma lead_ok_lead: "(\<forall>err. out \<noteq> TransportError err) \<Longrightarrow> lead_ok out (lead out)"
  by (cases out) (simp_all add: lead_def)

lemma iteration_char:
  assumes "iteration P cfg a e c = (ctl, c')"
  shows "\<exists>out pre. attempts c' = attempts c @ [out] \<and> lead_ok out pre
      \<and> ctl = next_control (a < maxRetries cfg) out
      \<and> shape (trace c') = shape (trace c) @ pre @ tail_steps (a < maxRetries cfg) out"
proof -
  obtain ctl0 c0 where tb: "tryBody P cfg a e c = (ctl0, c0)" by (cases "tryBody P cfg a e c")
  note t = tryBody_char[OF tb]
  show ?thesis
  proof (cases ctl0)
    case (Throw err)
    with assms tb have cb: "catchBlock P cfg a (monitor e) err c0 = (ctl, c')"
      by (simp add: iteration_def)
    from t Throw have t': "attempts c0 = attempts c"
      "shape (trace c0) = shape (trace c) \<or> shape (trace c0) = shape (trace c) @ [Attempt]"
      by simp_all
    from t'(2) show ?thesis
    proof
      assume "shape (trace c0) = shape (trace c)"
      with catchBlock_char[OF cb] t'(1) show ?thesis
        by (intro exI[of _ "TransportError err"] exI[of _ "[]"]) simp
    next
      assume "shape (trace c0) = shape (trace c) @ [Attempt]"
      with catchBlock_char[OF cb] t'(1) show ?thesis
        by (intro exI[of _ "TransportError err"] exI[of _ "[Attempt]"]) simp
    qed
  next
    case Continue
    with assms tb have eq: "ctl = ctl0" "c' = c0" by (simp_all add: iteration_def)
    from t Continue obtain out where "(\<forall>err. out \<noteq> TransportError err)" "attempts c0 = attempts c @ [out]"
      "ctl0 = next_control (a < maxRetries cfg) out"
      "shape (trace c0) = shape (trace c) @ lead out @ tail_steps (a < maxRetries cfg) out"
      by auto
    with eq lead_ok_lead[of out] show ?thesis
      by (intro exI[of _ out] exI[of _ "lead out"]) simp
  next
    case Return
    with assms tb have eq: "ctl = ctl0" "c' = c0" by (simp_all add: iteration_def)
    from t Return obtain out where "(\<forall>err. out \<noteq> TransportError err)" "attempts c0 = attempts c @ [out]"
      "ctl0 = next_control (a < maxRetries cfg) out"
      "shape (trace c0) = shape (trace c) @ lead out @ tail_steps (a < maxRetries cfg) out"
      by auto
    with eq lead_ok_lead[of out] show ?thesis
      by (intro exI[of _ out] exI[of _ "lead out"]) simp
  qed
qed

lemma cycle_shape_Cons:
  "rest \<noteq> [] \<Longrightarrow> cycle_shape ((pre, out) # rest) = pre @ [Wait 2000] @ cycle_shape rest"
  by (cases rest) auto

lemma keepAlive_loop_char:
  assumes "keepAlive_loop P cfg W a c = (thr, c')" and "a \<le> maxRetries cfg"
  shows "\<exists>outs pres. outs \<noteq> [] \<and> list_all2 lead_ok outs pres
      \<and> attempts c' = attempts c @ outs
      \<and> shape (trace c') = shape (trace c) @ cycle_shape (zip pres outs)
      \<and> (\<forall>out \<in> set (butlast outs). retryable out)
      \<and> a + int (length outs) \<le> maxRetries cfg + 1
      \<and> (retryable (last outs) \<longrightarrow> a + int (length outs) = maxRetries cfg + 1)
      \<and> thr = None
      \<and> (\<exists>d. attempts d = attempts c @ butlast outs
            \<and> iteration P cfg (a + int (length outs) - 1) (W (a + int (length outs) - 1)) d = (Return, c'))"
  using assms
proof (induction P cfg W a c arbitrary: thr c' rule: keepAlive_loop.induct)
  case (1 P cfg W a c)
  obtain ctl c1 where it: "iteration P cfg a (W a) c = (ctl, c1)"
    by (cases "iteration P cfg a (W a) c")
  from iteration_char[OF it] obtain out pre where
    ic: "attempts c1 = attempts c @ [out]" "lead_ok out pre"
      "ctl = next_control (a < maxRetries cfg) out"
      "shape (trace c1) = shape (trace c) @ pre @ tail_steps (a < maxRetries cfg) out"
    by blast
  show ?case
  proof (cases "retryable out \<and> a < maxRetries cfg")
    case True
    then have ctl: "ctl = Continue" using ic(3) by (simp add: next_control_def)
    with "1.prems" it have run: "keepAlive_loop P cfg W (a + 1) c1 = (thr, c')"
      by (simp add: keepAlive_loop.simps[of P cfg W a c])
    from True have le: "a + 1 \<le> maxRetries cfg" by simp
    from "1.IH"[OF "1.prems"(2) it[symmetric] ctl run le]
    obtain outs pres d where ih: "outs \<noteq> []" "list_all2 lead_ok outs pres"
      "attempts c' = attempts c1 @ outs"
      "shape (trace c') = shape (trace c1) @ cycle_shape (zip pres outs)"
      "\<forall>out \<in> set (butlast outs). retryable out"
      "a + 1 + int (length outs) \<le> maxRetries cfg + 1"
      "retryable (last outs) \<longrightarrow> a + 1 + int (length outs) = maxRetries cfg + 1"
      "thr = None"
      "attempts d = attempts c1 @ butlast outs"
      "iteration P cfg (a + 1 + int (length outs) - 1) (W (a + 1 + int (length outs) - 1)) d = (Return, c')"
      by blast
    from ih(1,2) have zne: "zip pres outs \<noteq> []"
      by (cases outs; cases pres) auto
    have bl: "butlast (out # outs) = out # butlast outs" using ih(1) by simp
    have ar: "a + 1 + int (length outs) - 1 = a + int (length (out # outs)) - 1" by simp
    show ?thesis
      apply (rule exI[of _ "out # outs"], rule exI[of _ "pre # pres"])
      apply (intro conjI)
              apply simp
             apply (simp add: ih(2) ic(2))
            apply (simp add: ih(3) ic(1))
           apply (simp add: ih(4) ic(4) cycle_shape_Cons[OF zne] tail_steps_def True)
          apply (simp only: bl) using ih(5) True apply simp
      using ih(6) apply simp
      using ih(7) ih(1) apply simp
      using ih(8) apply simp
      apply (rule exI[of _ d])
      using ih(9,10) ic(1) bl ar apply simp
      done
  next
    case False
    then have ctl: "ctl = Return" using ic(3) by (simp add: next_control_def)
    with "1.prems" it have res: "thr = None" "c' = c1"
      by (simp_all add: keepAlive_loop.simps[of P cfg W a c])
    show ?thesis
      apply (rule exI[of _ "[out]"], rule exI[of _ "[pre]"])
      using res ic False "1.prems"(2) it ctl
      apply (simp add: tail_steps_def)
      apply (rule exI[of _ c])
      apply simp
      done
  qed
qed


subsection \<open>The requests sent to the monitor\<close>

text \<open>
  Only \<open>pushToUptimeKuma\<close> sends a request to the monitor, so in every trace of a cycle
  the requests sent are those of the calls of the notifier.
\<close>

lemma updateOne_gets:
  "updateOne P a (j, n, evs) h = (j', n', evs') \<Longrightarrow> filter is_monitor_get evs' = filter is_monitor_get evs"
  by (auto simp: updateOne_def Let_def split: sum.splits option.splits if_splits)

lemma updateLoop_gets:
  "foldl (updateOne P a) (j, n, evs) hs = (j', n', evs')
     \<Longrightarrow> filter is_monitor_get evs' = filter is_monitor_get evs"
proof (induction hs arbitrary: j n evs)
  case Nil
  then show ?case by simp
next
  case (Cons h hs)
  obtain j1 n1 evs1 where s: "updateOne P a (j, n, evs) h = (j1, n1, evs1)"
    by (cases "updateOne P a (j, n, evs) h") auto
  with Cons show ?case using updateOne_gets[OF s] by simp
qed

lemma updateCookies_gets:
  "updateCookies P j url hs = (j', n, evs) \<Longrightarrow> filter is_monitor_get evs = []"
  by (auto simp: updateCookies_def Let_def split: if_splits prod.splits dest: updateLoop_gets)

lemma applySetCookie_gets [simp]:
  "filter is_monitor_get (trace (applySetCookie P url hv c)) = filter is_monitor_get (trace c)"
  by (auto simp: applySetCookie_def Let_def split: prod.splits dest: updateCookies_gets)

lemma serializeCookie_gets:
  "serializeCookie P j url = (evs, r) \<Longrightarrow> filter is_monitor_get evs = []"
  by (auto simp: serializeCookie_def Let_def split: option.splits)

lemma extractIframeUrl_gets:
  "extractIframeUrl P html = (evs, r) \<Longrightarrow> filter is_monitor_get evs = []"
  by (auto simp: extractIframeUrl_def split: sum.splits list.splits option.splits if_splits)

lemma getIframeUrl_try_gets:
  "getIframeUrl_try P cfg f c = (r, c') \<Longrightarrow> filter is_monitor_get (trace c') = filter is_monitor_get (trace c)"
  by (auto simp: getIframeUrl_try_def Let_def
      split: prod.splits sum.splits fetch.splits if_splits
      dest: serializeCookie_gets extractIframeUrl_gets)

lemma getIframeUrl_gets:
  "getIframeUrl P cfg f c = (r, c') \<Longrightarrow> filter is_monitor_get (trace c') = filter is_monitor_get (trace c)"
  by (auto simp: getIframeUrl_def split: prod.splits sum.splits dest: getIframeUrl_try_gets)

lemma resolveTarget_gets:
  "resolveTarget P cfg e c = (r, c') \<Longrightarrow> filter is_monitor_get (trace c') = filter is_monitor_get (trace c)"
  by (auto simp: resolveTarget_def split: prod.splits option.splits if_splits dest: getIframeUrl_gets)

lemma pushTry_gets:
  "pushTry P k f st m p = (evs, r) \<Longrightarrow>
     filter is_monitor_get evs
       = (case url_hostname P (pushUrl k) of Inl err \<Rightarrow> [] | Inr h \<Rightarrow> [MonitorGet (pushUrl k) st m p])"
  by (auto simp: pushTry_def Let_def split: sum.splits fetch.splits json_reply.splits if_splits)

lemma pushToUptimeKuma_gets:
  "pushToUptimeKuma P cfg f st m p = (evs, r) \<Longrightarrow> filter is_monitor_get evs = monitor_request P cfg st m p"
  by (auto simp: pushToUptimeKuma_def monitor_request_def
      split: option.splits if_splits prod.splits dest: pushTry_gets)

lemma requests_match_same:
  "shape evs' = shape evs \<Longrightarrow> filter is_monitor_get evs' = filter is_monitor_get evs
     \<Longrightarrow> requests_match P cfg evs' = requests_match P cfg evs"
  by (simp add: requests_match_def)

lemma report_requests:
  assumes "report P cfg f st m p c = (ctl, c')" and "requests_match P cfg (trace c)"
  shows "requests_match P cfg (trace c')"
proof -
  obtain evs r where pk: "pushToUptimeKuma P cfg f st m p = (evs, r)"
    by (cases "pushToUptimeKuma P cfg f st m p")
  note g = pushToUptimeKuma_gets[OF pk] and s = pushToUptimeKuma_shape[OF pk]
  from assms(1) pk s have "trace c' = trace c @ Report st m p # evs" by (auto simp: report_def)
  with assms(2) g s show ?thesis by (simp add: requests_match_def)
qed

lemma retryOrReport_requests:
  assumes "retryOrReport P cfg a f m p c = (ctl, c')" and "requests_match P cfg (trace c)"
  shows "requests_match P cfg (trace c')"
proof (cases "a < maxRetries cfg")
  case True
  with assms show ?thesis by (auto simp: retryOrReport_def requests_match_def)
next
  case False
  with assms(1) have "report P cfg f Down m p c = (ctl, c')" by (simp add: retryOrReport_def)
  from report_requests[OF this assms(2)] show ?thesis .
qed

lemma handleResponse_requests:
  assumes "handleResponse P cfg a f status body rt c = (ctl, c')" and "requests_match P cfg (trace c)"
  shows "requests_match P cfg (trace c')"
proof -
  consider (cf) "containsFailureMarker body"
    | (us) "\<not> containsFailureMarker body" "status \<notin> set (expectedStatusCodes cfg)"
    | (ok) "\<not> containsFailureMarker body" "status \<in> set (expectedStatusCodes cfg)"
    by blast
  then show ?thesis
  proof cases
    case cf
    with assms obtain c0 where
      r: "retryOrReport P cfg a f (MsgFailureMarker status) None c0 = (ctl, c')"
      and c0: "requests_match P cfg (trace c0)"
      by (simp add: handleResponse_def requests_match_def)
    from retryOrReport_requests[OF r c0] show ?thesis .
  next
    case us
    with assms obtain c0 where
      r: "retryOrReport P cfg a f (MsgUnexpectedStatus status) (Some rt) c0 = (ctl, c')"
      and c0: "requests_match P cfg (trace c0)"
      by (simp add: handleResponse_def requests_match_def)
    from retryOrReport_requests[OF r c0] show ?thesis .
  next
    case ok
    with assms obtain c0 where
      r: "report P cfg f Up MsgOK (Some rt) c0 = (ctl, c')"
      and c0: "requests_match P cfg (trace c0)"
      by (simp add: handleResponse_def requests_match_def)
    from report_requests[OF r c0] show ?thesis .
  qed
qed

lemma catchBlock_requests:
  assumes "catchBlock P cfg a f err c = (ctl, c')" and "requests_match P cfg (trace c)"
  shows "requests_match P cfg (trace c')"
proof (cases err)
  case (ErrorObj name code message)
  with assms obtain mm c0 where
    r: "retryOrReport P cfg a f mm None c0 = (ctl, c')"
    and c0: "requests_match P cfg (trace c0)"
    by (simp add: catchBlock_def requests_match_def)
  from retryOrReport_requests[OF r c0] show ?thesis .
next
  case (NonError v)
  with assms obtain c0 where
    r: "retryOrReport P cfg a f MsgUnknown None c0 = (ctl, c')"
    and c0: "requests_match P cfg (trace c0)"
    by (simp add: catchBlock_def requests_match_def)
  from retryOrReport_requests[OF r c0] show ?thesis .
qed

lemma tryBody_requests:
  assumes "tryBody P cfg a e c = (ctl, c')" and "requests_match P cfg (trace c)"
  shows "requests_match P cfg (trace c')"
proof -
  obtain r c1 where rt: "resolveTarget P cfg e c = (r, c1)" by (cases "resolveTarget P cfg e c")
  from resolveTarget_fields[OF rt] resolveTarget_gets[OF rt] assms(2)
  have w1: "requests_match P cfg (trace c1)" by (simp add: requests_match_def)
  show ?thesis
  proof (cases r)
    case None
    with assms rt have "report P cfg (monitor e) Down MsgNoTargetUrl None (noted NoTarget c1) = (ctl, c')"
      by (simp add: tryBody_def)
    from report_requests[OF this] w1 show ?thesis by simp
  next
    case (Some url)
    obtain evs ch where sc: "serializeCookie P (jar_of (says [Log Info (Visiting url)] c1)) url = (evs, ch)"
      by (cases "serializeCookie P (jar_of (says [Log Info (Visiting url)] c1)) url")
    note se = serializeCookie_shape[OF sc] serializeCookie_gets[OF sc]
    show ?thesis
    proof (cases ch)
      case (Inl err)
      with assms rt Some sc w1 se show ?thesis by (auto simp: tryBody_def Let_def requests_match_def)
    next
      case (Inr cookieHeader)
      show ?thesis
      proof (cases "target e")
        case (Rejects err ms)
        with assms rt Some sc Inr w1 se show ?thesis by (auto simp: tryBody_def Let_def requests_match_def)
      next
        case (Resolves resp)
        show ?thesis
        proof (cases "bodyText resp")
          case (Inl err)
          with assms rt Some sc Inr Resolves w1 se show ?thesis
            by (auto simp: tryBody_def Let_def requests_match_def)
        next
          case (Inr responseBody)
          with assms rt Some sc \<open>ch = Inr cookieHeader\<close> Resolves
          obtain c6 rtm where h: "handleResponse P cfg a (monitor e) (statusCode resp) responseBody rtm c6 = (ctl, c')"
            and c6: "shape (trace c6) = shape (trace c1) @ shape evs @ [Attempt]"
              "filter is_monitor_get (trace c6) = filter is_monitor_get (trace c1) @ filter is_monitor_get evs"
            by (auto simp: tryBody_def Let_def)
          from c6 se w1 have "requests_match P cfg (trace c6)" by (simp add: requests_match_def)
          from handleResponse_requests[OF h this] show ?thesis .
        qed
      qed
    qed
  qed
qed

lemma iteration_requests:
  assumes "iteration P cfg a e c = (ctl, c')" and "requests_match P cfg (trace c)"
  shows "requests_match P cfg (trace c')"
proof -
  obtain k d where t: "tryBody P cfg a e c = (k, d)" by (cases "tryBody P cfg a e c")
  note w = tryBody_requests[OF t assms(2)]
  show ?thesis
  proof (cases k)
    case (Throw err)
    with assms(1) t have "catchBlock P cfg a (monitor e) err d = (ctl, c')" by (simp add: iteration_def)
    from catchBlock_requests[OF this w] show ?thesis .
  next
    case Continue
    with assms(1) t w show ?thesis by (simp add: iteration_def)
  next
    case Return
    with assms(1) t w show ?thesis by (simp add: iteration_def)
  qed
qed

lemma keepAlive_loop_requests:
  assumes "keepAlive_loop P cfg W a c = (thr, c')" and "requests_match P cfg (trace c)"
  shows "requests_match P cfg (trace c')"
  using assms
proof (induction P cfg W a c arbitrary: thr c' rule: keepAlive_loop.induct)
  case (1 P cfg W a c)
  show ?case
  proof (cases "a \<le> maxRetries cfg")
    case False
    with "1.prems" show ?thesis
      by (auto simp: keepAlive_loop.simps[of P cfg W a c] requests_match_def split: if_splits)
  next
    case True
    obtain k d where i: "iteration P cfg a (W a) c = (k, d)" by (cases "iteration P cfg a (W a) c")
    note w = iteration_requests[OF i "1.prems"(2)]
    show ?thesis
    proof (cases k)
      case Continue
      with "1.prems"(1) True i have "keepAlive_loop P cfg W (a + 1) d = (thr, c')"
        by (simp add: keepAlive_loop.simps[of P cfg W a c])
      from "1.IH"[OF True i[symmetric] Continue this w] show ?thesis .
    next
      case Return
      with "1.prems"(1) True i w show ?thesis by (simp add: keepAlive_loop.simps[of P cfg W a c])
    next
      case (Throw err)
      with "1.prems"(1) True i w show ?thesis by (simp add: keepAlive_loop.simps[of P cfg W a c])
    qed
  qed
qed

lemma keepAlive_requests:
  assumes "keepAlive P cfg W j t0 = (thr, c')"
  shows "filter is_monitor_get (trace c') = concat (map (step_requests P cfg) (shape (trace c')))"
  using keepAlive_loop_requests[OF assms[unfolded keepAlive_def]] by (simp add: requests_match_def)

lemma report_gets:
  assumes "report P cfg f st m p c = (ctl, c')"
  shows "filter is_monitor_get (trace c')
           = filter is_monitor_get (trace c) @ monitor_request P cfg st m p"
proof -
  obtain evs r where pk: "pushToUptimeKuma P cfg f st m p = (evs, r)"
    by (cases "pushToUptimeKuma P cfg f st m p")
  note g = pushToUptimeKuma_gets[OF pk] and s = pushToUptimeKuma_shape[OF pk]
  from assms pk s have "trace c' = trace c @ Report st m p # evs" by (auto simp: report_def)
  with g show ?thesis by simp
qed

lemma step_requests_notify:
  "concat (map (step_requests P cfg) xs) = concat (map (step_requests P cfg) (filter is_notify xs))"
proof (induction xs)
  case Nil
  then show ?case by simp
next
  case (Cons x xs)
  then show ?case by (cases x) simp_all
qed

subsection \<open>The failure classifier\<close>

lemma str_includes_sublist: "str_includes s m \<longleftrightarrow> sublist m s"
  by (induction s) (auto simp: sublist_Cons_right)

lemma containsFailureMarker_iff:
  "containsFailureMarker body \<longleftrightarrow> (\<exists>marker \<in> set FAILURE_MARKERS. sublist marker body)"
  by (simp add: containsFailureMarker_def list_ex_iff str_includes_sublist)

text \<open>
  Claim C1. The branch \<open>keepAlive\<close> takes on a response that was read is decided in a
  fixed order. If some failure marker occurs in the body (as a contiguous substring), the
  attempt is recorded as a content failure, whatever the status code, also when the status
  code is an expected one. Otherwise, if the status code is not among the expected status
  codes, the attempt is an unexpected status. Otherwise it is a success. What the branch
  then does (a delay, or the notification) is what that outcome calls for.
\<close>

theorem classification_decision_order:
  assumes "handleResponse P cfg attempt f status body responseTime c = (ctl, c')"
  shows "((\<exists>marker \<in> set FAILURE_MARKERS. sublist marker body) \<longrightarrow>
            attempts c' = attempts c @ [ContentFailure status responseTime])
       \<and> (\<not> (\<exists>marker \<in> set FAILURE_MARKERS. sublist marker body)
            \<and> status \<notin> set (expectedStatusCodes cfg) \<longrightarrow>
            attempts c' = attempts c @ [UnexpectedStatus status responseTime])
       \<and> (\<not> (\<exists>marker \<in> set FAILURE_MARKERS. sublist marker body)
            \<and> status \<in> set (expectedStatusCodes cfg) \<longrightarrow>
            attempts c' = attempts c @ [Success status responseTime])
       \<and> shape (trace c') =
           shape (trace c) @ tail_steps (attempt < maxRetries cfg) (last (attempts c'))"
  using handleResponse_all[OF assms]
  by (simp add: response_outcome_def containsFailureMarker_iff)

theorem classification_decision_order_witness:
  "attempts (snd (handleResponse sample_platform direct_config 1 refused 200
       (''<h1>'' @ ''Sorry, we can't find the page you are looking for.'' @ ''</h1>'') 7 fresh_cycle))
     = [ContentFailure 200 7]
   \<and> attempts (snd (handleResponse sample_platform direct_config 1 refused 503
       ''Service Unavailable'' 7 fresh_cycle))
     = [UnexpectedStatus 503 7]
   \<and> attempts (snd (handleResponse sample_platform direct_config 1 refused 200
       ''Running'' 7 fresh_cycle))
     = [Success 200 7]"
proof -
  have m: "\<exists>marker \<in> set FAILURE_MARKERS. sublist marker
      (''<h1>'' @ ''Sorry, we can't find the page you are looking for.'' @ ''</h1>'')"
    unfolding FAILURE_MARKERS_def by (intro bexI[of _ "''Sorry, we can't find the page you are looking for.''"] sublist_appendI) simp
  have nc: "\<not> containsFailureMarker ''Service Unavailable''" "\<not> containsFailureMarker ''Running''"
    by code_simp+
  have n: "\<not> (\<exists>marker \<in> set FAILURE_MARKERS. sublist marker ''Service Unavailable'')"
    "\<not> (\<exists>marker \<in> set FAILURE_MARKERS. sublist marker ''Running'')"
    using nc containsFailureMarker_iff by blast+
  have e: "(503::int) \<notin> set (expectedStatusCodes direct_config)"
    "(200::int) \<in> set (expectedStatusCodes direct_config)"
    by (simp_all add: direct_config_def)
  have a: "attempts fresh_cycle = []" by (simp add: fresh_cycle_def)
  show ?thesis
    using classification_decision_order[OF surjective_pairing[of "handleResponse sample_platform direct_config 1 refused 200
        (''<h1>'' @ ''Sorry, we can't find the page you are looking for.'' @ ''</h1>'') 7 fresh_cycle"]]
      classification_decision_order[OF surjective_pairing[of "handleResponse sample_platform direct_config 1 refused 503
        ''Service Unavailable'' 7 fresh_cycle"]]
      classification_decision_order[OF surjective_pairing[of "handleResponse sample_platform direct_config 1 refused 200
        ''Running'' 7 fresh_cycle"]]
      m n e a
    by simp
qed

subsection \<open>The retry loop\<close>

lemma keepAlive_char:
  assumes "keepAlive P cfg W j t0 = (thr, c')" and "1 \<le> maxRetries cfg"
  shows "\<exists>pres. attempts c' \<noteq> [] \<and> list_all2 lead_ok (attempts c') pres
      \<and> shape (trace c') = cycle_shape (zip pres (attempts c'))
      \<and> (\<forall>out \<in> set (butlast (attempts c')). retryable out)
      \<and> int (length (attempts c')) \<le> maxRetries cfg
      \<and> (retryable (last (attempts c')) \<longrightarrow> int (length (attempts c')) = maxRetries cfg)
      \<and> thr = None"
proof -
  from keepAlive_loop_char[OF assms(1)[unfolded keepAlive_def]] assms(2)
  obtain outs pres where "outs \<noteq> []" "list_all2 lead_ok outs pres"
      "attempts c' = outs" "shape (trace c') = cycle_shape (zip pres outs)"
      "\<forall>out \<in> set (butlast outs). retryable out"
      "1 + int (length outs) \<le> maxRetries cfg + 1"
      "retryable (last outs) \<longrightarrow> 1 + int (length outs) = maxRetries cfg + 1"
      "thr = None"
    by auto
  then show ?thesis by (intro exI[of _ pres]) auto
qed

lemma notify_cycle_shape:
  "outs \<noteq> [] \<Longrightarrow> list_all2 lead_ok outs pres \<Longrightarrow>
   filter is_notify (cycle_shape (zip pres outs)) = [terminal_report (last outs)]"
proof (induction outs arbitrary: pres)
  case Nil
  then show ?case by simp
next
  case (Cons out outs)
  then obtain pre pres' where p: "pres = pre # pres'" "lead_ok out pre" "list_all2 lead_ok outs pres'"
    by (auto simp: list_all2_Cons1)
  have pre: "filter is_notify pre = []" using p(2) by (cases out) auto
  have tr: "is_notify (terminal_report out)" by (cases out) auto
  show ?case
  proof (cases outs)
    case Nil
    with p pre tr show ?thesis by simp
  next
    case (Cons o2 os)
    with p obtain q qs where q: "pres' = q # qs" by (auto simp: list_all2_Cons1)
    from Cons.IH[OF _ p(3)] Cons have "filter is_notify (cycle_shape (zip pres' outs)) = [terminal_report (last outs)]"
      by simp
    with p pre Cons q show ?thesis by simp
  qed
qed

lemma cycle_shape_snoc:
  "length pres = length outs \<Longrightarrow>
   \<exists>before. cycle_shape (zip (pres @ [pre]) (outs @ [out])) = before @ pre @ [terminal_report out]
      \<and> (outs \<noteq> [] \<longrightarrow> (\<exists>b. before = b @ [Wait 2000]))"
proof (induction pres outs rule: list_induct2)
  case Nil
  then show ?case by simp
next
  case (Cons p ps x xs)
  then obtain before where b: "cycle_shape (zip (ps @ [pre]) (xs @ [out])) = before @ pre @ [terminal_report out]"
     "xs \<noteq> [] \<longrightarrow> (\<exists>b. before = b @ [Wait 2000])"
    by blast
  have ne: "zip (ps @ [pre]) (xs @ [out]) \<noteq> []" using Cons(1) by (cases ps; cases xs) auto
  show ?case
  proof (cases xs)
    case Nil
    with Cons(1) have "ps = []" by simp
    with Nil show ?thesis by (intro exI[of _ "p @ [Wait 2000]"]) simp
  next
    case (Cons y ys)
    with b obtain b' where "before = b' @ [Wait 2000]" by auto
    with b(1) ne show ?thesis
      by (intro exI[of _ "p @ [Wait 2000] @ before"]) (simp add: cycle_shape_Cons)
  qed
qed

lemma keepAlive_sent:
  assumes "keepAlive P cfg W j t0 = (thr, c')" and "1 \<le> maxRetries cfg"
  shows "filter is_monitor_get (trace c')
           = step_requests P cfg (terminal_report (last (attempts c')))"
proof -
  from keepAlive_char[OF assms]
  obtain pres where k: "attempts c' \<noteq> []" "list_all2 lead_ok (attempts c') pres"
      "shape (trace c') = cycle_shape (zip pres (attempts c'))"
    by auto
  from notify_cycle_shape[OF k(1,2)] k(3)
  have "filter is_notify (shape (trace c')) = [terminal_report (last (attempts c'))]" by simp
  with keepAlive_requests[OF assms(1)] step_requests_notify[of P cfg "shape (trace c')"]
  show ?thesis by simp
qed

lemma keepAlive_no_attempt:
  assumes "keepAlive P cfg W j t0 = (thr, c')" and "\<not> 1 \<le> maxRetries cfg"
  shows "attempts c' = []"
  using assms by (auto simp: keepAlive_def keepAlive_loop.simps[of P cfg W 1] split: if_splits)

lemma run_503:
  "attempts (snd (keepAlive sample_platform direct_config world_503 empty_jar 0))
     = [UnexpectedStatus 503 40, UnexpectedStatus 503 40, UnexpectedStatus 503 40]"
  by code_simp

lemma run_gone:
  "attempts (snd (keepAlive sample_platform direct_config world_gone empty_jar 0))
     = [ContentFailure 200 25, ContentFailure 200 25, ContentFailure 200 25]"
  by code_simp

lemma run_no_page:
  "attempts (snd (keepAlive sample_platform wrapper_only_config world_no_page empty_jar 0))
     = [NoTarget]"
  by code_simp

text \<open>
  Claim C2, as the code has it. With \<open>maxRetries = 3\<close>, a cycle in which every attempt
  ends as an unexpected status makes exactly three attempts: the steps of the cycle are a
  request, a delay of 2000 ms, a request, a delay of 2000 ms, a request, and one call of the
  notifier with status "down" (carrying the status code and the response time of the third
  attempt). There is no delay after the last attempt and nothing is thrown. What the cycle
  sends to the monitor is what that one call sends: when the monitor is configured and
  enabled and its push URL is well-formed, exactly one request, with status "down", the
  message of the third attempt and its response time; otherwise nothing.
\<close>

theorem three_unexpected_statuses:
  assumes "keepAlive P cfg W j t0 = (thr, c')"
    and "maxRetries cfg = 3"
    and "\<forall>out \<in> set (attempts c'). \<exists>s t. out = UnexpectedStatus s t"
  shows "\<exists>s1 t1 s2 t2 s3 t3.
           attempts c' = [UnexpectedStatus s1 t1, UnexpectedStatus s2 t2, UnexpectedStatus s3 t3]
         \<and> shape (trace c') =
             [Attempt, Wait 2000, Attempt, Wait 2000, Attempt,
              Notify Down (MsgUnexpectedStatus s3) (Some t3)]
         \<and> filter is_monitor_get (trace c')
             = monitor_request P cfg Down (MsgUnexpectedStatus s3) (Some t3)
         \<and> thr = None"
proof -
  have m: "1 \<le> maxRetries cfg" using assms(2) by simp
  from keepAlive_char[OF assms(1) m]
  obtain pres where k: "attempts c' \<noteq> []" "list_all2 lead_ok (attempts c') pres"
      "shape (trace c') = cycle_shape (zip pres (attempts c'))"
      "retryable (last (attempts c')) \<longrightarrow> int (length (attempts c')) = maxRetries cfg"
      "thr = None"
    by auto
  from k(1) assms(3) have "retryable (last (attempts c'))"
    using last_in_set by fastforce
  with k(4) assms(2) have "length (attempts c') = 3" by simp
  then obtain o1 o2 o3 where os: "attempts c' = [o1, o2, o3]"
    by (auto simp: length_Suc_conv numeral_3_eq_3)
  with assms(3) obtain s1 t1 s2 t2 s3 t3 where
    o: "o1 = UnexpectedStatus s1 t1" "o2 = UnexpectedStatus s2 t2" "o3 = UnexpectedStatus s3 t3"
    by auto
  from k(2) os o have "pres = [[Attempt], [Attempt], [Attempt]]"
    by (auto simp: list_all2_Cons1)
  with k(3) os o have sh: "shape (trace c') =
     [Attempt, Wait 2000, Attempt, Wait 2000, Attempt, Notify Down (MsgUnexpectedStatus s3) (Some t3)]"
    by simp
  from keepAlive_sent[OF assms(1) m] os o
  have "filter is_monitor_get (trace c')
          = monitor_request P cfg Down (MsgUnexpectedStatus s3) (Some t3)"
    by simp
  with sh os o k(5) show ?thesis by blast
qed

theorem three_unexpected_statuses_witness:
  "attempts (snd (keepAlive sample_platform direct_config world_503 empty_jar 0))
     = [UnexpectedStatus 503 40, UnexpectedStatus 503 40, UnexpectedStatus 503 40]
   \<and> shape (trace (snd (keepAlive sample_platform direct_config world_503 empty_jar 0)))
     = [Attempt, Wait 2000, Attempt, Wait 2000, Attempt, Notify Down (MsgUnexpectedStatus 503) (Some 40)]
   \<and> filter is_monitor_get (trace (snd (keepAlive sample_platform direct_config world_503 empty_jar 0)))
     = [MonitorGet ''https://kuma.example/api/push/k'' Down (MsgUnexpectedStatus 503) (Some 40)]"
proof -
  have m: "maxRetries direct_config = 3" by (simp add: direct_config_def)
  have a: "\<forall>out \<in> set (attempts (snd (keepAlive sample_platform direct_config world_503 empty_jar 0))).
      \<exists>s t. out = UnexpectedStatus s t"
    by (simp add: run_503)
  have q: "monitor_request sample_platform direct_config Down (MsgUnexpectedStatus 503) (Some 40)
      = [MonitorGet ''https://kuma.example/api/push/k'' Down (MsgUnexpectedStatus 503) (Some 40)]"
    by code_simp
  from three_unexpected_statuses[OF surjective_pairing m a] show ?thesis
    by (auto simp: run_503 q)
qed

text \<open>
  Claim C2 as stated fails for a configuration without a monitor: with \<open>maxRetries = 3\<close>
  and a target that answers 503 in every attempt, the cycle makes its three attempts with
  the two delays and calls the notifier once, and no "down" is issued to the monitor:
  \<open>pushToUptimeKuma\<close> returns before it builds a request.
\<close>

theorem unmonitored_cycle_sends_nothing:
  "maxRetries unmonitored_config = 3
   \<and> uptimeKuma unmonitored_config = None
   \<and> attempts (snd (keepAlive sample_platform unmonitored_config world_503 empty_jar 0))
       = [UnexpectedStatus 503 40, UnexpectedStatus 503 40, UnexpectedStatus 503 40]
   \<and> shape (trace (snd (keepAlive sample_platform unmonitored_config world_503 empty_jar 0)))
       = [Attempt, Wait 2000, Attempt, Wait 2000, Attempt, Notify Down (MsgUnexpectedStatus 503) (Some 40)]
   \<and> filter is_monitor_get (trace (snd (keepAlive sample_platform unmonitored_config world_503 empty_jar 0)))
       = []"
  by code_simp

lemma no_target_attempt:
  assumes "fst (resolveTarget P cfg e c) = None" and "iteration P cfg a e c = (ctl, c')"
  shows "ctl = Return \<and> attempts c' = attempts c @ [NoTarget]
       \<and> shape (trace c') = shape (trace c) @ [Notify Down MsgNoTargetUrl None]
       \<and> filter is_monitor_get (trace c')
           = filter is_monitor_get (trace c) @ monitor_request P cfg Down MsgNoTargetUrl None"
proof -
  obtain r c1 where rt: "resolveTarget P cfg e c = (r, c1)" by (cases "resolveTarget P cfg e c")
  with assms(1) have r: "r = None" by simp
  note f1 = resolveTarget_fields[OF rt] resolveTarget_gets[OF rt]
  obtain k d where rp: "report P cfg (monitor e) Down MsgNoTargetUrl None (noted NoTarget c1) = (k, d)"
    by (cases "report P cfg (monitor e) Down MsgNoTargetUrl None (noted NoTarget c1)")
  note rc = report_char[OF rp] report_gets[OF rp]
  from rt r rp have "tryBody P cfg a e c = (k, d)" by (simp add: tryBody_def)
  with rc assms(2) have "ctl = Return" "c' = d" by (simp_all add: iteration_def)
  with rc f1 show ?thesis by simp
qed

lemma resolveTarget_none:
  "targetUrl cfg = [] \<Longrightarrow> spaceUrl cfg = [] \<or> fst (getIframeUrl P cfg (space e) c) = None \<Longrightarrow>
     fst (resolveTarget P cfg e c) = None"
  by (cases "getIframeUrl P cfg (space e) c") (auto simp: resolveTarget_def)

text \<open>
  Claim C3, as the code has it. An attempt for which resolution yields no target URL
  returns from \<open>keepAlive\<close> at once: it calls the notifier with status "down", the
  message that no target URL could be obtained and no latency, whatever the attempt number
  and \<open>maxRetries\<close> are. So in a cycle such an attempt is the last one, its notification
  is the only notification of the cycle and ends the steps of the cycle: no delay and no
  further attempt follows. The call sends its one request to the monitor, with that status
  and message and without a latency, when the monitor is configured and enabled and its
  push URL is well-formed, and nothing otherwise; the cycle sends nothing else.
\<close>

theorem no_target_ends_cycle:
  assumes "keepAlive P cfg W j t0 = (thr, c')" and "NoTarget \<in> set (attempts c')"
  shows "(\<forall>a e c ctl d.
            fst (resolveTarget P cfg e c) = None \<and> iteration P cfg a e c = (ctl, d) \<longrightarrow>
            ctl = Return \<and> attempts d = attempts c @ [NoTarget]
          \<and> shape (trace d) = shape (trace c) @ [Notify Down MsgNoTargetUrl None]
          \<and> filter is_monitor_get (trace d)
              = filter is_monitor_get (trace c) @ monitor_request P cfg Down MsgNoTargetUrl None)
       \<and> last (attempts c') = NoTarget \<and> NoTarget \<notin> set (butlast (attempts c'))
       \<and> (\<exists>before. shape (trace c') = before @ [Notify Down MsgNoTargetUrl None]
             \<and> (\<forall>s m p. Notify s m p \<notin> set before))
       \<and> filter is_monitor_get (trace c') = monitor_request P cfg Down MsgNoTargetUrl None"
proof -
  have at: "\<forall>a e c ctl d.
            fst (resolveTarget P cfg e c) = None \<and> iteration P cfg a e c = (ctl, d) \<longrightarrow>
            ctl = Return \<and> attempts d = attempts c @ [NoTarget]
          \<and> shape (trace d) = shape (trace c) @ [Notify Down MsgNoTargetUrl None]
          \<and> filter is_monitor_get (trace d)
              = filter is_monitor_get (trace c) @ monitor_request P cfg Down MsgNoTargetUrl None"
    using no_target_attempt by blast
  have m: "1 \<le> maxRetries cfg"
  proof (rule ccontr)
    assume "\<not> 1 \<le> maxRetries cfg"
    from keepAlive_no_attempt[OF assms(1) this] assms(2) show False by simp
  qed
  from keepAlive_char[OF assms(1) m]
  obtain pres where k: "attempts c' \<noteq> []" "list_all2 lead_ok (attempts c') pres"
      "shape (trace c') = cycle_shape (zip pres (attempts c'))"
      "\<forall>out \<in> set (butlast (attempts c')). retryable out"
    by auto
  from k(1) obtain xs x where sp: "attempts c' = xs @ [x]"
    by (cases "attempts c'" rule: rev_cases) auto
  from k(4) sp have nb: "NoTarget \<notin> set xs" by auto
  with assms(2) sp have l: "x = NoTarget" by simp
  from k(2) sp obtain ps pre where ps: "pres = ps @ [pre]" "length ps = length xs" "lead_ok x pre"
    by (auto simp: list_all2_append1 list_all2_Cons1)
  with l have pre: "pre = []" by simp
  from cycle_shape_snoc[OF ps(2), of pre x] sp ps(1) k(3) l pre
  obtain before where b: "shape (trace c') = before @ [Notify Down MsgNoTargetUrl None]"
    by auto
  have "filter is_notify (shape (trace c')) = [terminal_report (last (attempts c'))]"
    using notify_cycle_shape[OF k(1,2)] k(3) by simp
  then have "filter is_notify (before @ [Notify Down MsgNoTargetUrl None]) = [Notify Down MsgNoTargetUrl None]"
    using b l sp by simp
  then have "filter is_notify before = []" by simp
  then have "\<forall>s m p. Notify s m p \<notin> set before"
    by (auto simp: filter_empty_conv)
  moreover from keepAlive_sent[OF assms(1) m] l sp
  have "filter is_monitor_get (trace c') = monitor_request P cfg Down MsgNoTargetUrl None"
    by simp
  ultimately have "last (attempts c') = NoTarget \<and> NoTarget \<notin> set (butlast (attempts c'))
       \<and> (\<exists>before. shape (trace c') = before @ [Notify Down MsgNoTargetUrl None]
             \<and> (\<forall>s m p. Notify s m p \<notin> set before))
       \<and> filter is_monitor_get (trace c') = monitor_request P cfg Down MsgNoTargetUrl None"
    using l nb b sp by auto
  with at show ?thesis by blast
qed

theorem no_target_ends_cycle_witness:
  "fst (resolveTarget sample_platform wrapper_only_config (world_no_page 1) fresh_cycle) = None
   \<and> fst (iteration sample_platform wrapper_only_config 1 (world_no_page 1) fresh_cycle) = Return
   \<and> last (attempts (snd (keepAlive sample_platform wrapper_only_config world_no_page empty_jar 0)))
       = NoTarget
   \<and> (\<exists>before. shape (trace (snd (keepAlive sample_platform wrapper_only_config world_no_page
          empty_jar 0))) = before @ [Notify Down MsgNoTargetUrl None])
   \<and> filter is_monitor_get (trace (snd (keepAlive sample_platform wrapper_only_config world_no_page
          empty_jar 0))) = [MonitorGet ''https://kuma.example/api/push/k'' Down MsgNoTargetUrl None]"
proof -
  have q: "monitor_request sample_platform wrapper_only_config Down MsgNoTargetUrl None
      = [MonitorGet ''https://kuma.example/api/push/k'' Down MsgNoTargetUrl None]"
    by code_simp
  have n: "NoTarget \<in> set (attempts (snd (keepAlive sample_platform wrapper_only_config
      world_no_page empty_jar 0)))"
    by (simp add: run_no_page)
  have r: "fst (resolveTarget sample_platform wrapper_only_config (world_no_page 1) fresh_cycle) = None"
    by code_simp
  note t = no_target_ends_cycle[OF surjective_pairing n]
  from t have "fst (resolveTarget sample_platform wrapper_only_config (world_no_page 1) fresh_cycle) = None
      \<and> iteration sample_platform wrapper_only_config 1 (world_no_page 1) fresh_cycle
          = (fst (iteration sample_platform wrapper_only_config 1 (world_no_page 1) fresh_cycle),
             snd (iteration sample_platform wrapper_only_config 1 (world_no_page 1) fresh_cycle))
      \<longrightarrow> fst (iteration sample_platform wrapper_only_config 1 (world_no_page 1) fresh_cycle) = Return"
    by blast
  with r have i: "fst (iteration sample_platform wrapper_only_config 1 (world_no_page 1) fresh_cycle) = Return"
    by simp
  from t have g: "filter is_monitor_get (trace (snd (keepAlive sample_platform wrapper_only_config
      world_no_page empty_jar 0))) = monitor_request sample_platform wrapper_only_config Down MsgNoTargetUrl None"
    by blast
  from t r i g[unfolded q] show ?thesis by blast
qed

text \<open>
  Claim C3 as stated fails: with \<open>maxRetries = 3\<close>, no direct target URL and a wrapper
  page that answers 500 in every attempt, the cycle makes one attempt, not three, and
  pushes "down" without any delay.
\<close>

theorem no_target_not_retried:
  "maxRetries wrapper_only_config = 3
   \<and> targetUrl wrapper_only_config = []
   \<and> attempts (snd (keepAlive sample_platform wrapper_only_config world_no_page empty_jar 0))
       = [NoTarget]
   \<and> shape (trace (snd (keepAlive sample_platform wrapper_only_config world_no_page empty_jar 0)))
       = [Notify Down MsgNoTargetUrl None]
   \<and> filter is_monitor_get (trace (snd (keepAlive sample_platform wrapper_only_config world_no_page
          empty_jar 0)))
       = [MonitorGet ''https://kuma.example/api/push/k'' Down MsgNoTargetUrl None]"
  by code_simp

text \<open>
  Claim C10, as the code has it. The two "down" notifications of an exhausted cycle differ
  in their latency: when the last attempt is a content failure, the cycle has made all
  \<open>maxRetries\<close> attempts and its one call of the notifier is "down" with the marker
  message and no latency; when the last attempt is an unexpected status, its one call is
  "down" with the status message and the response time measured in that last attempt. What
  is pushed is what that call sends: when the monitor is configured and enabled and its push
  URL is well-formed, the one request of the cycle, without a latency in the first case and
  with the response time of the last attempt in the second; otherwise nothing is pushed.
\<close>

theorem exhausted_down_latency:
  assumes "keepAlive P cfg W j t0 = (thr, c')" and "1 \<le> maxRetries cfg"
  shows "(\<forall>s t. last (attempts c') = ContentFailure s t \<longrightarrow>
            int (length (attempts c')) = maxRetries cfg
          \<and> filter is_notify (shape (trace c')) = [Notify Down (MsgFailureMarker s) None]
          \<and> filter is_monitor_get (trace c') = monitor_request P cfg Down (MsgFailureMarker s) None)
       \<and> (\<forall>s t. last (attempts c') = UnexpectedStatus s t \<longrightarrow>
            int (length (attempts c')) = maxRetries cfg
          \<and> filter is_notify (shape (trace c')) = [Notify Down (MsgUnexpectedStatus s) (Some t)]
          \<and> filter is_monitor_get (trace c')
              = monitor_request P cfg Down (MsgUnexpectedStatus s) (Some t))"
proof -
  from keepAlive_char[OF assms]
  obtain pres where k: "attempts c' \<noteq> []" "list_all2 lead_ok (attempts c') pres"
      "shape (trace c') = cycle_shape (zip pres (attempts c'))"
      "retryable (last (attempts c')) \<longrightarrow> int (length (attempts c')) = maxRetries cfg"
    by auto
  from notify_cycle_shape[OF k(1,2)] k(3)
  have "filter is_notify (shape (trace c')) = [terminal_report (last (attempts c'))]" by simp
  with k(4) keepAlive_sent[OF assms] show ?thesis by auto
qed

theorem exhausted_down_latency_witness:
  "filter is_monitor_get (trace (snd (keepAlive sample_platform direct_config world_gone empty_jar 0)))
     = [MonitorGet ''https://kuma.example/api/push/k'' Down (MsgFailureMarker 200) None]
   \<and> filter is_monitor_get (trace (snd (keepAlive sample_platform direct_config world_503 empty_jar 0)))
     = [MonitorGet ''https://kuma.example/api/push/k'' Down (MsgUnexpectedStatus 503) (Some 40)]
   \<and> filter is_notify (shape (trace (snd (keepAlive sample_platform direct_config world_gone empty_jar 0))))
     = [Notify Down (MsgFailureMarker 200) None]
   \<and> filter is_notify (shape (trace (snd (keepAlive sample_platform direct_config world_503 empty_jar 0))))
     = [Notify Down (MsgUnexpectedStatus 503) (Some 40)]"
proof -
  have m: "1 \<le> maxRetries direct_config" by (simp add: direct_config_def)
  have q: "monitor_request sample_platform direct_config Down (MsgFailureMarker 200) None
      = [MonitorGet ''https://kuma.example/api/push/k'' Down (MsgFailureMarker 200) None]"
    "monitor_request sample_platform direct_config Down (MsgUnexpectedStatus 503) (Some 40)
      = [MonitorGet ''https://kuma.example/api/push/k'' Down (MsgUnexpectedStatus 503) (Some 40)]"
    by code_simp+
  from exhausted_down_latency[OF surjective_pairing m, of sample_platform world_gone empty_jar 0]
    exhausted_down_latency[OF surjective_pairing m, of sample_platform world_503 empty_jar 0]
  show ?thesis by (simp add: run_gone run_503 q)
qed

text \<open>
  Claim C10 as stated fails when the monitor is switched off: the cycle whose last attempt
  is a content failure and the cycle whose last attempt is an unexpected status both end
  exhausted after three attempts, and neither pushes a "down": no request is sent.
\<close>

theorem exhausted_cycle_pushes_nothing:
  "attempts (snd (keepAlive sample_platform monitor_off_config world_gone empty_jar 0))
     = [ContentFailure 200 25, ContentFailure 200 25, ContentFailure 200 25]
   \<and> filter is_monitor_get (trace (snd (keepAlive sample_platform monitor_off_config world_gone empty_jar 0)))
     = []
   \<and> attempts (snd (keepAlive sample_platform monitor_off_config world_503 empty_jar 0))
     = [UnexpectedStatus 503 40, UnexpectedStatus 503 40, UnexpectedStatus 503 40]
   \<and> filter is_monitor_get (trace (snd (keepAlive sample_platform monitor_off_config world_503 empty_jar 0)))
     = []"
  by code_simp

subsection \<open>The cookie jar\<close>

lemma updateOne_step:
  assumes "a < length (heap j)" and "updateOne P a (j, n, evs) h = (j', n', evs')"
  shows "cookieStorage j' = cookieStorage j \<and> length (heap j') = length (heap j)
     \<and> (\<forall>b. b \<noteq> a \<longrightarrow> heap j' ! b = heap j ! b)
     \<and> heap j' ! a = apply_directive P (heap j ! a) h
     \<and> n' = n + (if directive_pair P h = None then 0 else 1)
     \<and> length (filter is_warning evs') = length (filter is_warning evs) + (if parse_fails P h then 1 else 0)"
  using assms
  by (auto simp: updateOne_def apply_directive_def directive_pair_def parse_fails_def Let_def
      split: sum.splits option.splits if_splits)

lemma updateLoop_steps:
  assumes "a < length (heap j)" and "foldl (updateOne P a) (j, n, evs) hs = (j', n', evs')"
  shows "cookieStorage j' = cookieStorage j \<and> length (heap j') = length (heap j)
     \<and> (\<forall>b. b \<noteq> a \<longrightarrow> heap j' ! b = heap j ! b)
     \<and> heap j' ! a = foldl (apply_directive P) (heap j ! a) hs
     \<and> n' = n + length (filter (\<lambda>h. directive_pair P h \<noteq> None) hs)
     \<and> length (filter is_warning evs') = length (filter is_warning evs) + length (filter (parse_fails P) hs)"
  using assms
proof (induction hs arbitrary: j n evs)
  case Nil
  then show ?case by simp
next
  case (Cons h hs)
  obtain j1 n1 evs1 where s: "updateOne P a (j, n, evs) h = (j1, n1, evs1)"
    by (cases "updateOne P a (j, n, evs) h") auto
  note st = updateOne_step[OF Cons.prems(1) s]
  from st have a1: "a < length (heap j1)" using Cons.prems(1) by simp
  from Cons.prems(2) s have "foldl (updateOne P a) (j1, n1, evs1) hs = (j', n', evs')" by simp
  from Cons.IH[OF a1 this] st show ?case by simp
qed

lemma map_add_upd_left: "(m(k \<mapsto> v)) ++ M = m ++ ([k \<mapsto> v] ++ M)"
  by (auto simp: map_add_def fun_eq_iff split: option.splits)

lemma map_of_apply_directives:
  "map_of (foldl (apply_directive P) obj hs)
     = map_of obj ++ map_of (rev (List.map_filter (stored_pair P) hs))"
proof (induction hs arbitrary: obj)
  case Nil
  then show ?case by simp
next
  case (Cons h hs)
  show ?case
  proof (cases "stored_pair P h")
    case None
    then have "apply_directive P obj h = obj"
      by (auto simp: apply_directive_def stored_pair_def obj_set_def split: option.splits if_splits)
    with Cons None show ?thesis by simp
  next
    case (Some p)
    obtain k v where p: "p = (k, v)" by (cases p)
    let ?M = "map_of (rev (List.map_filter (stored_pair P) hs))"
    from Some p have "apply_directive P obj h = AList.update k v obj"
      by (auto simp: apply_directive_def stored_pair_def obj_set_def split: option.splits if_splits)
    then have "map_of (foldl (apply_directive P) obj (h # hs))
            = map_of (foldl (apply_directive P) (AList.update k v obj) hs)"
      by simp
    also have "\<dots> = map_of (AList.update k v obj) ++ ?M" by (rule Cons.IH)
    also have "\<dots> = ((map_of obj)(k \<mapsto> v)) ++ ?M" by (simp only: update_conv')
    also have "\<dots> = map_of obj ++ ([k \<mapsto> v] ++ ?M)" by (rule map_add_upd_left)
    also have "[k \<mapsto> v] ++ ?M = map_of (rev (List.map_filter (stored_pair P) (h # hs)))"
      using Some p by simp
    finally show ?thesis .
  qed
qed

lemma jar_store_new_get:
  "jar_get (jar_store_new d obj j) d = Some obj"
  by (simp add: jar_get_def jar_store_new_def update_conv')

lemma updateCookies_entry:
  assumes "extractDomain P url = d" and "d \<noteq> []"
    and "updateCookies P j url hs = (j', n, evs)"
  shows "jar_get j' d
           = Some (foldl (apply_directive P) (case jar_get j d of None \<Rightarrow> [] | Some obj \<Rightarrow> obj) hs)"
    and "n = length (filter (\<lambda>h. directive_pair P h \<noteq> None) hs)"
    and "length (filter is_warning evs) = length (filter (parse_fails P) hs)"
proof -
  define j1 where "j1 = (if jar_get j d = None then jar_store_new d [] j else j)"
  obtain a where a: "map_of (cookieStorage j1) d = Some a" "a < length (heap j1)"
      "heap j1 ! a = (case jar_get j d of None \<Rightarrow> [] | Some obj \<Rightarrow> obj)"
    by (cases "jar_get j d")
       (auto simp: j1_def jar_get_def jar_store_new_def update_conv' split: option.splits if_splits)
  obtain j2 n2 evs2 where f: "foldl (updateOne P a) (j1, 0, []) hs = (j2, n2, evs2)"
    by (cases "foldl (updateOne P a) (j1, 0, []) hs") auto
  note st = updateLoop_steps[OF a(2) f]
  from assms f a(1) have res: "j' = j2" "n = n2"
     "evs = evs2 @ (if n2 > 0 then [Log Info (CookiesUpdated d n2), Log Info StorageDump] else [])"
    by (auto simp add: updateCookies_def Let_def j1_def[symmetric])
  from st a res show "jar_get j' d
           = Some (foldl (apply_directive P) (case jar_get j d of None \<Rightarrow> [] | Some obj \<Rightarrow> obj) hs)"
    by (simp add: jar_get_def)
  from st res show "n = length (filter (\<lambda>h. directive_pair P h \<noteq> None) hs)" by simp
  from st res show "length (filter is_warning evs) = length (filter (parse_fails P) hs)" by simp
qed


lemma update_fresh_snd:
  assumes "distinct (map snd al)" and "v \<notin> set (map snd al)"
  shows "distinct (map snd (AList.update k v al)) \<and> set (map snd (AList.update k v al)) \<subseteq> insert v (set (map snd al))"
  using assms by (induction al) (auto split: if_splits)

lemma jar_store_new_wf:
  assumes "jar_wf j"
  shows "jar_wf (jar_store_new d obj j)"
proof -
  let ?cs = "AList.update d (length (heap j)) (cookieStorage j)"
  from assms have fresh: "length (heap j) \<notin> set (map snd (cookieStorage j))"
    by (auto simp: jar_wf_def)
  from assms have ds: "distinct (map snd (cookieStorage j))" by (simp add: jar_wf_def)
  note u = update_fresh_snd[OF ds fresh, of d]
  have "\<forall>a \<in> set (map snd ?cs). a < Suc (length (heap j))"
  proof
    fix a assume "a \<in> set (map snd ?cs)"
    with u have "a = length (heap j) \<or> a \<in> set (map snd (cookieStorage j))" by blast
    with assms show "a < Suc (length (heap j))" by (auto simp: jar_wf_def)
  qed
  with u assms show ?thesis
    by (simp add: jar_wf_def jar_store_new_def distinct_update)
qed

lemma jar_store_new_others:
  assumes "jar_wf j" and "y \<noteq> d"
  shows "jar_get (jar_store_new d obj j) y = jar_get j y"
proof (cases "map_of (cookieStorage j) y")
  case None
  with assms(2) show ?thesis by (simp add: jar_get_def jar_store_new_def update_conv')
next
  case (Some b)
  then have "b \<in> set (map snd (cookieStorage j))"
    by (force dest: map_of_SomeD)
  with assms(1) have "b < length (heap j)" by (auto simp: jar_wf_def)
  with Some assms(2) show ?thesis
    by (simp add: jar_get_def jar_store_new_def update_conv' nth_append)
qed

lemma map_of_inj_wf:
  assumes "jar_wf j" and "map_of (cookieStorage j) x = Some a" and "map_of (cookieStorage j) y = Some a"
  shows "x = y"
proof -
  from assms(2,3) have m: "(x, a) \<in> set (cookieStorage j)" "(y, a) \<in> set (cookieStorage j)"
    by (auto dest: map_of_SomeD)
  from assms(1) have "distinct (map snd (cookieStorage j))" by (simp add: jar_wf_def)
  then have "inj_on snd (set (cookieStorage j))" by (simp add: distinct_map)
  from inj_onD[OF this _ m] show ?thesis by simp
qed

lemma updateCookies_wf_others:
  assumes "jar_wf j" and "extractDomain P url = d" and "d \<noteq> []"
    and "updateCookies P j url hs = (j', n, evs)"
  shows "jar_wf j'" and "\<forall>y. y \<noteq> d \<longrightarrow> jar_get j' y = jar_get j y"
proof -
  define j1 where "j1 = (if jar_get j d = None then jar_store_new d [] j else j)"
  have wf1: "jar_wf j1" using assms(1) by (simp add: j1_def jar_store_new_wf)
  have o1: "\<forall>y. y \<noteq> d \<longrightarrow> jar_get j1 y = jar_get j y"
    using assms(1) by (simp add: j1_def jar_store_new_others)
  obtain a where a: "map_of (cookieStorage j1) d = Some a" "a < length (heap j1)"
    by (cases "jar_get j d")
       (auto simp: j1_def jar_get_def jar_store_new_def update_conv' split: option.splits if_splits)
  obtain j2 n2 evs2 where f: "foldl (updateOne P a) (j1, 0, []) hs = (j2, n2, evs2)"
    by (cases "foldl (updateOne P a) (j1, 0, []) hs") auto
  note st = updateLoop_steps[OF a(2) f]
  from assms f a(1) have res: "j' = j2"
    by (auto simp add: updateCookies_def Let_def j1_def[symmetric])
  from st wf1 res show "jar_wf j'" by (simp add: jar_wf_def)
  show "\<forall>y. y \<noteq> d \<longrightarrow> jar_get j' y = jar_get j y"
  proof (intro allI impI)
    fix y assume y: "y \<noteq> d"
    have "jar_get j2 y = jar_get j1 y"
    proof (cases "map_of (cookieStorage j1) y")
      case None
      with st show ?thesis by (simp add: jar_get_def)
    next
      case (Some b)
      with a(1) y map_of_inj_wf[OF wf1] have "b \<noteq> a" by blast
      with st Some show ?thesis by (simp add: jar_get_def)
    qed
    with o1 y res show "jar_get j' y = jar_get j y" by simp
  qed
qed

lemma initCookie_wf:
  assumes "jar_wf j" and "initCookie P cfg j = Some j'"
  shows "jar_wf j'"
proof -
  have fold_wf: "jar_wf (foldl (\<lambda>j domain. jar_store_new domain obj j) j0 ds)" if "jar_wf j0" for obj j0 ds
    using that by (induction ds arbitrary: j0) (simp_all add: jar_store_new_wf)
  from assms show ?thesis
    by (auto simp: initCookie_def Let_def fold_wf split: sum.splits)
qed

lemma empty_jar_wf: "jar_wf empty_jar"
  by (simp add: jar_wf_def empty_jar_def)


lemma initCookie_sample: "initCookie sample_platform direct_config empty_jar = Some seeded_jar"
  by code_simp

text \<open>
  What \<open>updateCookies\<close> does with a batch, on a URL with a host name. It goes
  through the whole batch, one directive at a time. The jar entry of the domain exists
  afterwards (it is created when absent); in it every name other than \<open>__proto__\<close>
  has the value of the last directive of the batch that parsed with that name and a
  non-empty value, and the names no such directive mentions keep what they had. The number
  of updates is the number of directives that parsed with a name and a non-empty value,
  those named \<open>__proto__\<close> included. Exactly the directives that fail to parse
  are answered with a warning.
\<close>

lemma updateCookies_batch:
  assumes "extractDomain P url = d" and "d \<noteq> []"
    and "updateCookies P j url hs = (j', n, evs)"
  shows "(\<exists>entry. jar_get j' d = Some entry
            \<and> map_of entry = map_of (case jar_get j d of None \<Rightarrow> [] | Some obj \<Rightarrow> obj)
                               ++ map_of (rev (List.map_filter (stored_pair P) hs)))
       \<and> n = length (filter (\<lambda>h. directive_pair P h \<noteq> None) hs)
       \<and> length (filter is_warning evs) = length (filter (parse_fails P) hs)"
  using updateCookies_entry[OF assms] by (simp add: map_of_apply_directives)

text \<open>
  Claim C5. Every successfully parsed name/value pair should overwrite that name's entry in
  the jar entry of the origin. The directive \<open>__proto__=abc\<close> parses to the name
  \<open>__proto__\<close> and the value \<open>abc\<close>. On it \<open>updateCookies\<close>
  counts one update and logs the cookie as updated, and the jar is what it was before: the
  entry of the origin holds the seed cookie only, nothing is stored under the name.
\<close>

theorem proto_cookie_counted_not_stored:
  "directive_pair sample_platform ''__proto__=abc'' = Some (''__proto__'', ''abc'')
   \<and> jar_get seeded_jar ''direct.example'' = Some [(''spaces-jwt'', ''seed'')]
   \<and> updateCookies sample_platform seeded_jar ''https://direct.example/app'' [''__proto__=abc'']
       = (seeded_jar, 1,
          [Log Info (CookieUpdated ''__proto__'' ''abc''),
           Log Info (CookiesUpdated ''direct.example'' 1), Log Info StorageDump])"
  by code_simp

text \<open>
  Every function of a poll cycle keeps the jar well-formed, so every jar the program reaches
  from \<open>initCookie\<close> is well-formed.
\<close>

lemma updateCookies_wf:
  assumes "jar_wf j" and "updateCookies P j url hs = (j', n, evs)"
  shows "jar_wf j'"
proof (cases "extractDomain P url = []")
  case True
  with assms show ?thesis by (simp add: updateCookies_def)
next
  case False
  from updateCookies_wf_others(1)[OF assms(1) refl False assms(2)] show ?thesis .
qed

lemma applySetCookie_wf:
  "jar_wf (jar_of c) \<Longrightarrow> jar_wf (jar_of (applySetCookie P url hv c))"
  by (auto simp: applySetCookie_def Let_def split: prod.splits dest: updateCookies_wf)

lemma getIframeUrl_try_wf:
  "getIframeUrl_try P cfg f c = (r, c') \<Longrightarrow> jar_wf (jar_of c) \<Longrightarrow> jar_wf (jar_of c')"
  by (auto simp: getIframeUrl_try_def Let_def applySetCookie_wf
      split: prod.splits sum.splits fetch.splits if_splits)

lemma getIframeUrl_wf:
  "getIframeUrl P cfg f c = (r, c') \<Longrightarrow> jar_wf (jar_of c) \<Longrightarrow> jar_wf (jar_of c')"
  by (auto simp: getIframeUrl_def split: prod.splits sum.splits dest: getIframeUrl_try_wf)

lemma resolveTarget_wf:
  "resolveTarget P cfg e c = (r, c') \<Longrightarrow> jar_wf (jar_of c) \<Longrightarrow> jar_wf (jar_of c')"
  by (auto simp: resolveTarget_def split: prod.splits option.splits if_splits dest: getIframeUrl_wf)

lemma catchBlock_jar:
  "catchBlock P cfg a f err c = (ctl, c') \<Longrightarrow> jar_of c' = jar_of c"
  by (auto simp: catchBlock_def split: thrown.splits dest!: retryOrReport_char)

lemma tryBody_wf:
  assumes "tryBody P cfg a e c = (ctl, c')" and "jar_wf (jar_of c)"
  shows "jar_wf (jar_of c')"
proof -
  obtain r c1 where rt: "resolveTarget P cfg e c = (r, c1)" by (cases "resolveTarget P cfg e c")
  note w1 = resolveTarget_wf[OF rt assms(2)]
  show ?thesis
  proof (cases r)
    case None
    with assms rt have "report P cfg (monitor e) Down MsgNoTargetUrl None (noted NoTarget c1) = (ctl, c')"
      by (simp add: tryBody_def)
    from report_char[OF this] w1 show ?thesis by simp
  next
    case (Some url)
    obtain evs ch where sc: "serializeCookie P (jar_of (says [Log Info (Visiting url)] c1)) url = (evs, ch)"
      by (cases "serializeCookie P (jar_of (says [Log Info (Visiting url)] c1)) url")
    show ?thesis
    proof (cases ch)
      case (Inl err)
      with assms rt Some sc w1 show ?thesis by (auto simp: tryBody_def Let_def)
    next
      case (Inr cookieHeader)
      show ?thesis
      proof (cases "target e")
        case (Rejects err ms)
        with assms rt Some sc Inr w1 show ?thesis by (auto simp: tryBody_def Let_def)
      next
        case (Resolves resp)
        show ?thesis
        proof (cases "bodyText resp")
          case (Inl err)
          with assms rt Some sc Inr Resolves w1 show ?thesis
            by (auto simp: tryBody_def Let_def applySetCookie_wf)
        next
          case (Inr responseBody)
          with assms rt Some sc \<open>ch = Inr cookieHeader\<close> Resolves
          obtain c6 rtm where h: "handleResponse P cfg a (monitor e) (statusCode resp) responseBody rtm c6 = (ctl, c')"
            and c6: "jar_of c6 = jar_of (applySetCookie P url (setCookie resp)
                (tick (headersMs resp) (says (evs @ [Fetch Target url cookieHeader])
                   (says [Log Info (Visiting url)] c1))))"
            by (auto simp: tryBody_def Let_def)
          have "jar_wf (jar_of c6)" unfolding c6 using w1 by (intro applySetCookie_wf) simp
          with handleResponse_all[OF h] show ?thesis by simp
        qed
      qed
    qed
  qed
qed

lemma iteration_wf:
  assumes "iteration P cfg a e c = (ctl, c')" and "jar_wf (jar_of c)"
  shows "jar_wf (jar_of c')"
proof -
  obtain k d where t: "tryBody P cfg a e c = (k, d)" by (cases "tryBody P cfg a e c")
  note w = tryBody_wf[OF t assms(2)]
  show ?thesis
  proof (cases k)
    case (Throw err)
    with assms(1) t have "catchBlock P cfg a (monitor e) err d = (ctl, c')" by (simp add: iteration_def)
    from catchBlock_jar[OF this] w show ?thesis by simp
  next
    case Continue
    with assms(1) t w show ?thesis by (simp add: iteration_def)
  next
    case Return
    with assms(1) t w show ?thesis by (simp add: iteration_def)
  qed
qed

lemma keepAlive_loop_wf:
  assumes "keepAlive_loop P cfg W a c = (thr, c')" and "jar_wf (jar_of c)"
  shows "jar_wf (jar_of c')"
  using assms
proof (induction P cfg W a c arbitrary: thr c' rule: keepAlive_loop.induct)
  case (1 P cfg W a c)
  show ?case
  proof (cases "a \<le> maxRetries cfg")
    case False
    with "1.prems" show ?thesis by (auto simp: keepAlive_loop.simps[of P cfg W a c] split: if_splits)
  next
    case True
    obtain k d where i: "iteration P cfg a (W a) c = (k, d)" by (cases "iteration P cfg a (W a) c")
    note w = iteration_wf[OF i "1.prems"(2)]
    show ?thesis
    proof (cases k)
      case Continue
      with "1.prems"(1) True i have "keepAlive_loop P cfg W (a + 1) d = (thr, c')"
        by (simp add: keepAlive_loop.simps[of P cfg W a c])
      from "1.IH"[OF True i[symmetric] Continue this w] show ?thesis .
    next
      case Return
      with "1.prems"(1) True i w show ?thesis by (simp add: keepAlive_loop.simps[of P cfg W a c])
    next
      case (Throw err)
      with "1.prems"(1) True i w show ?thesis by (simp add: keepAlive_loop.simps[of P cfg W a c])
    qed
  qed
qed

lemma keepAlive_wf:
  assumes "keepAlive P cfg W j t0 = (thr, c')" and "jar_wf j"
  shows "jar_wf (jar_of c')"
  using keepAlive_loop_wf[OF assms(1)[unfolded keepAlive_def]] assms(2) by simp


lemma isolated_run:
  "jar_get (fst (updateCookies sample_platform seeded_jar ''https://u-s.example/?__sign=tok''
       [''spaces-jwt=abc; Path=/; HttpOnly''])) ''direct.example'' = Some [(''spaces-jwt'', ''seed'')]"
  by code_simp



subsection \<open>Target resolution\<close>







subsection \<open>The reported latency\<close>

lemma applySetCookie_now_le: "now c \<le> now (applySetCookie P url hv c)"
  by simp

lemma getIframeUrl_try_now: "getIframeUrl_try P cfg f c = (r, c') \<Longrightarrow> now c \<le> now c'"
  by (auto simp: getIframeUrl_try_def Let_def
      split: prod.splits sum.splits fetch.splits if_splits)

lemma getIframeUrl_now: "getIframeUrl P cfg f c = (r, c') \<Longrightarrow> now c \<le> now c'"
  by (auto simp: getIframeUrl_def split: prod.splits sum.splits dest: getIframeUrl_try_now)

lemma resolveTarget_now: "resolveTarget P cfg e c = (r, c') \<Longrightarrow> now c \<le> now c'"
  by (auto simp: resolveTarget_def split: prod.splits option.splits if_splits dest: getIframeUrl_now)

lemma response_outcome_timed: "timed (response_outcome cfg status body rt) = Some (status, rt)"
  by (simp add: response_outcome_def)

lemma tryBody_time:
  assumes "tryBody P cfg a e c = (ctl, c')"
  shows "(\<exists>err. ctl = Throw err \<and> attempts c' = attempts c)
       \<or> (attempts c' = attempts c @ [NoTarget] \<and> ctl = Return)
       \<or> (\<exists>r out. target e = Resolves r \<and> attempts c' = attempts c @ [out]
             \<and> timed out = Some (statusCode r,
                  now (snd (resolveTarget P cfg e c)) - now c + headersMs r)
             \<and> now c' = now (snd (resolveTarget P cfg e c)) + headersMs r + bodyMs r
                  + (if ctl = Continue then 2000 else 0)
             \<and> (\<forall>err. ctl \<noteq> Throw err)
             \<and> (\<exists>body. bodyText r = Inr body
                  \<and> out = response_outcome cfg (statusCode r) body
                        (now (snd (resolveTarget P cfg e c)) - now c + headersMs r)))"
proof -
  obtain r c1 where rt: "resolveTarget P cfg e c = (r, c1)" by (cases "resolveTarget P cfg e c")
  note f1 = resolveTarget_fields[OF rt]
  note n1 = resolveTarget_now[OF rt]
  show ?thesis
  proof (cases r)
    case None
    with assms rt have "report P cfg (monitor e) Down MsgNoTargetUrl None (noted NoTarget c1) = (ctl, c')"
      by (simp add: tryBody_def)
    from report_char[OF this] f1 show ?thesis by simp
  next
    case (Some url)
    obtain evs ch where sc: "serializeCookie P (jar_of (says [Log Info (Visiting url)] c1)) url = (evs, ch)"
      by (cases "serializeCookie P (jar_of (says [Log Info (Visiting url)] c1)) url")
    show ?thesis
    proof (cases ch)
      case (Inl err)
      with assms rt Some sc f1 show ?thesis by (auto simp: tryBody_def Let_def)
    next
      case (Inr cookieHeader)
      show ?thesis
      proof (cases "target e")
        case (Rejects err ms)
        with assms rt Some sc Inr f1 show ?thesis by (auto simp: tryBody_def Let_def)
      next
        case (Resolves resp)
        show ?thesis
        proof (cases "bodyText resp")
          case (Inl err)
          with assms rt Some sc Inr Resolves f1 show ?thesis by (auto simp: tryBody_def Let_def)
        next
          case (Inr responseBody)
          with assms rt Some sc \<open>ch = Inr cookieHeader\<close> Resolves
          obtain c6 where h: "handleResponse P cfg a (monitor e) (statusCode resp) responseBody
                (now c1 + headersMs resp - now c) c6 = (ctl, c')"
            and c6: "attempts c6 = attempts c1" "now c6 = now c1 + headersMs resp + bodyMs resp"
            by (auto simp: tryBody_def Let_def)
          note hr = handleResponse_all[OF h]
          have nt: "\<forall>err. ctl \<noteq> Throw err"
            using hr next_control_cases[of "a < maxRetries cfg"
                "response_outcome cfg (statusCode resp) responseBody (now c1 + headersMs resp - now c)"]
            by auto
          have tm: "now c1 + headersMs resp - now c = now c1 - now c + headersMs resp"
            using n1 by simp
          show ?thesis
            apply (rule disjI2, rule disjI2)
            apply (rule exI[of _ resp])
            apply (rule exI[of _ "response_outcome cfg (statusCode resp) responseBody (now c1 + headersMs resp - now c)"])
            using hr c6 f1 nt Resolves rt tm Inr
            apply (simp add: response_outcome_timed)
            done
        qed
      qed
    qed
  qed
qed

lemma iteration_time:
  assumes "iteration P cfg a e c = (ctl, c')"
    and "attempts c' = attempts c @ [out]" and "timed out = Some (s, t)"
  shows "\<exists>r. target e = Resolves r \<and> s = statusCode r
       \<and> t = now (snd (resolveTarget P cfg e c)) - now c + headersMs r
       \<and> now c' = now (snd (resolveTarget P cfg e c)) + headersMs r + bodyMs r
            + (if ctl = Continue then 2000 else 0)
       \<and> (\<exists>body. bodyText r = Inr body \<and> out = response_outcome cfg s body t)"
proof -
  obtain ctl0 c0 where tb: "tryBody P cfg a e c = (ctl0, c0)" by (cases "tryBody P cfg a e c")
  from tryBody_time[OF tb] consider
    (thr) err where "ctl0 = Throw err" "attempts c0 = attempts c"
    | (nt) "attempts c0 = attempts c @ [NoTarget]" "ctl0 = Return"
    | (resp) r out0 where "target e = Resolves r" "attempts c0 = attempts c @ [out0]"
        "timed out0 = Some (statusCode r, now (snd (resolveTarget P cfg e c)) - now c + headersMs r)"
        "now c0 = now (snd (resolveTarget P cfg e c)) + headersMs r + bodyMs r
                  + (if ctl0 = Continue then 2000 else 0)"
        "\<forall>err. ctl0 \<noteq> Throw err"
        "\<exists>body. bodyText r = Inr body
           \<and> out0 = response_outcome cfg (statusCode r) body
                (now (snd (resolveTarget P cfg e c)) - now c + headersMs r)"
    by blast
  then show ?thesis
  proof cases
    case thr
    with assms(1) tb have "catchBlock P cfg a (monitor e) err c0 = (ctl, c')"
      by (simp add: iteration_def)
    from catchBlock_char[OF this] thr assms(2,3) show ?thesis by simp
  next
    case nt
    with assms(1) tb have "c' = c0" by (simp add: iteration_def)
    with nt assms(2,3) show ?thesis by simp
  next
    case resp
    with assms(1) tb have "c' = c0" "ctl = ctl0" by (cases ctl0; simp add: iteration_def)+
    with resp assms(2,3) show ?thesis by auto
  qed
qed


lemma keepAlive_no_trace:
  assumes "keepAlive P cfg W j t0 = (thr, c')" and "\<not> 1 \<le> maxRetries cfg"
  shows "trace c' = []"
  using assms by (auto simp: keepAlive_def keepAlive_loop.simps[of P cfg W 1] split: if_splits)

lemma terminal_report_ping:
  "terminal_report out = Notify st msg (Some p) \<Longrightarrow> \<exists>s. timed out = Some (s, p)"
  by (cases out) auto

text \<open>
  Claim C8, as the code has it. A notification that carries a latency is the only
  notification of its cycle and comes from the last attempt: the latency is the time that
  attempt spent resolving the target (the request for the wrapper page and the reading of
  its body, when a wrapper page is configured) plus the time until \<open>request\<close> resolved
  for the target, that is until the response headers had arrived. The time spent reading
  the body of the response comes after the measurement. The times of earlier attempts of
  the cycle are reported nowhere: the cycle sends the monitor nothing but the request of
  that one notification, which carries this latency (and sends nothing when the monitor is
  not configured, not enabled, or its push URL is malformed).
\<close>

theorem reported_latency:
  assumes "keepAlive P cfg W j t0 = (thr, c')"
    and "Notify st msg (Some p) \<in> set (shape (trace c'))"
  shows "\<exists>d r. iteration P cfg (int (length (attempts c'))) (W (int (length (attempts c')))) d
                  = (Return, c')
     \<and> length (attempts d) + 1 = length (attempts c')
     \<and> target (W (int (length (attempts c')))) = Resolves r
     \<and> p = now (snd (resolveTarget P cfg (W (int (length (attempts c')))) d)) - now d + headersMs r
     \<and> now c' = now (snd (resolveTarget P cfg (W (int (length (attempts c')))) d))
                  + headersMs r + bodyMs r
     \<and> filter is_notify (shape (trace c')) = [Notify st msg (Some p)]
     \<and> filter is_monitor_get (trace c') = monitor_request P cfg st msg (Some p)"
proof -
  have m: "1 \<le> maxRetries cfg"
  proof (rule ccontr)
    assume "\<not> 1 \<le> maxRetries cfg"
    from keepAlive_no_trace[OF assms(1) this] assms(2) show False by simp
  qed
  from keepAlive_loop_char[OF assms(1)[unfolded keepAlive_def] m]
  obtain outs pres d where k: "outs \<noteq> []" "list_all2 lead_ok outs pres"
      "attempts c' = outs" "shape (trace c') = cycle_shape (zip pres outs)"
      "attempts d = butlast outs"
      "iteration P cfg (1 + int (length outs) - 1) (W (1 + int (length outs) - 1)) d = (Return, c')"
    by auto
  have nf: "filter is_notify (shape (trace c')) = [terminal_report (last outs)]"
    using notify_cycle_shape[OF k(1,2)] k(4) by simp
  from assms(2) have "Notify st msg (Some p) \<in> set (filter is_notify (shape (trace c')))" by simp
  with nf have tr: "terminal_report (last outs) = Notify st msg (Some p)" by simp
  from terminal_report_ping[OF tr] obtain s where tm: "timed (last outs) = Some (s, p)" by blast
  have it: "iteration P cfg (int (length outs)) (W (int (length outs))) d = (Return, c')"
    using k(6) by simp
  have ap: "attempts c' = attempts d @ [last outs]" using k(1,3,5) by simp
  from iteration_time[OF it ap tm] obtain r where
    r: "target (W (int (length outs))) = Resolves r"
      "p = now (snd (resolveTarget P cfg (W (int (length outs))) d)) - now d + headersMs r"
      "now c' = now (snd (resolveTarget P cfg (W (int (length outs))) d)) + headersMs r + bodyMs r"
    by auto
  have ln: "length (attempts d) + 1 = length (attempts c')" using k(1,3,5) by simp
  have sent: "filter is_monitor_get (trace c') = monitor_request P cfg st msg (Some p)"
    using keepAlive_sent[OF assms(1) m] tr k(3) by simp
  show ?thesis
    apply (rule exI[of _ d], rule exI[of _ r])
    using it r ln nf tr k(3) sent apply simp
    done
qed

lemma run_up:
  "shape (trace (snd (keepAlive sample_platform both_config world_up empty_jar 0)))
     = [Attempt, Notify Up MsgOK (Some 180)]"
  by code_simp

theorem reported_latency_witness:
  "\<exists>d r. target (world_up 1) = Resolves r
     \<and> (180::nat) = now (snd (resolveTarget sample_platform both_config (world_up 1) d)) - now d
                      + headersMs r
     \<and> now (snd (keepAlive sample_platform both_config world_up empty_jar 0))
         = now (snd (resolveTarget sample_platform both_config (world_up 1) d)) + headersMs r + bodyMs r
     \<and> filter is_monitor_get (trace (snd (keepAlive sample_platform both_config world_up empty_jar 0)))
         = [MonitorGet ''https://kuma.example/api/push/k'' Up MsgOK (Some 180)]"
proof -
  have q: "monitor_request sample_platform both_config Up MsgOK (Some 180)
      = [MonitorGet ''https://kuma.example/api/push/k'' Up MsgOK (Some 180)]"
    by code_simp
  have n: "Notify Up MsgOK (Some 180)
      \<in> set (shape (trace (snd (keepAlive sample_platform both_config world_up empty_jar 0))))"
    by (simp add: run_up)
  have l: "int (length (attempts (snd (keepAlive sample_platform both_config world_up empty_jar 0)))) = 1"
    by code_simp
  from reported_latency[OF surjective_pairing n] show ?thesis
    unfolding l q by blast
qed

text \<open>
  Claim C8 as stated fails: the wrapper page takes 150 ms, the response headers of the
  target arrive after 30 ms and its body after another 20 ms; from the request to the body
  fully read it is 50 ms, and the latency reported is 180 ms.
\<close>

theorem latency_not_request_to_body:
  "filter is_notify (shape (trace (snd (keepAlive sample_platform both_config world_up empty_jar 0))))
     = [Notify Up MsgOK (Some 180)]
   \<and> filter is_monitor_get (trace (snd (keepAlive sample_platform both_config world_up empty_jar 0)))
     = [MonitorGet ''https://kuma.example/api/push/k'' Up MsgOK (Some 180)]
   \<and> request_to_body_ms (target (world_up 1)) = Some 50"
  by code_simp


subsection \<open>The monitor\<close>

lemma program_events_simps [simp]:
  "program_events [] = []"
  "program_events (xs @ ys) = program_events xs @ program_events ys"
  "program_events (ev # evs) = (if is_monitor_event ev then [] else [ev]) @ program_events evs"
  by (simp_all add: program_events_def)

lemma same_but_monitor_refl [simp]: "same_but_monitor c c"
  by (simp add: same_but_monitor_def)

lemma pushTry_events:
  "pushTry P k f st m p = (evs, r) \<Longrightarrow>
     program_events evs = [] \<and> length (filter is_monitor_get evs) \<le> 1"
  by (auto simp: pushTry_def Let_def split: sum.splits fetch.splits json_reply.splits if_splits)

lemma pushToUptimeKuma_events:
  "pushToUptimeKuma P cfg f st m p = (evs, r) \<Longrightarrow>
     program_events evs = [] \<and> length (filter is_monitor_get evs) \<le> 1 \<and> r = None"
  by (auto simp: pushToUptimeKuma_def split: option.splits if_splits prod.splits dest: pushTry_events)

lemma report_rel:
  assumes "report P cfg f st m p c = (ctl1, c1)" and "report P cfg f' st m p c = (ctl2, c2)"
  shows "ctl1 = Return \<and> ctl2 = Return \<and> same_but_monitor c1 c2"
proof -
  obtain evs r where p1: "pushToUptimeKuma P cfg f st m p = (evs, r)"
    by (cases "pushToUptimeKuma P cfg f st m p")
  obtain evs' r' where p2: "pushToUptimeKuma P cfg f' st m p = (evs', r')"
    by (cases "pushToUptimeKuma P cfg f' st m p")
  from pushToUptimeKuma_events[OF p1] pushToUptimeKuma_events[OF p2] assms p1 p2
  show ?thesis by (auto simp: report_def same_but_monitor_def)
qed

lemma retryOrReport_rel:
  assumes "retryOrReport P cfg a f m p c = (ctl1, c1)" and "retryOrReport P cfg a f' m p c = (ctl2, c2)"
  shows "ctl1 = ctl2 \<and> same_but_monitor c1 c2 \<and> (ctl1 \<noteq> Return \<longrightarrow> c1 = c2)"
proof (cases "a < maxRetries cfg")
  case True
  with assms show ?thesis by (auto simp: retryOrReport_def)
next
  case False
  with assms have "report P cfg f Down m p c = (ctl1, c1)" "report P cfg f' Down m p c = (ctl2, c2)"
    by (simp_all add: retryOrReport_def)
  from report_rel[OF this] show ?thesis by simp
qed

lemma handleResponse_rel:
  assumes "handleResponse P cfg a f status body rt c = (ctl1, c1)"
    and "handleResponse P cfg a f' status body rt c = (ctl2, c2)"
  shows "ctl1 = ctl2 \<and> same_but_monitor c1 c2 \<and> (ctl1 \<noteq> Return \<longrightarrow> c1 = c2)"
proof -
  consider (cf) "containsFailureMarker body"
    | (us) "\<not> containsFailureMarker body" "status \<notin> set (expectedStatusCodes cfg)"
    | (ok) "\<not> containsFailureMarker body" "status \<in> set (expectedStatusCodes cfg)"
    by blast
  then show ?thesis
  proof cases
    case cf
    with assms obtain c0 where
      "retryOrReport P cfg a f (MsgFailureMarker status) None c0 = (ctl1, c1)"
      "retryOrReport P cfg a f' (MsgFailureMarker status) None c0 = (ctl2, c2)"
      by (simp add: handleResponse_def)
    from retryOrReport_rel[OF this] show ?thesis .
  next
    case us
    with assms obtain c0 where
      "retryOrReport P cfg a f (MsgUnexpectedStatus status) (Some rt) c0 = (ctl1, c1)"
      "retryOrReport P cfg a f' (MsgUnexpectedStatus status) (Some rt) c0 = (ctl2, c2)"
      by (simp add: handleResponse_def)
    from retryOrReport_rel[OF this] show ?thesis .
  next
    case ok
    with assms obtain c0 where
      "report P cfg f Up MsgOK (Some rt) c0 = (ctl1, c1)"
      "report P cfg f' Up MsgOK (Some rt) c0 = (ctl2, c2)"
      by (simp add: handleResponse_def)
    from report_rel[OF this] show ?thesis by simp
  qed
qed

lemma catchBlock_rel:
  assumes "catchBlock P cfg a f err c = (ctl1, c1)" and "catchBlock P cfg a f' err c = (ctl2, c2)"
  shows "ctl1 = ctl2 \<and> same_but_monitor c1 c2 \<and> (ctl1 \<noteq> Return \<longrightarrow> c1 = c2)"
proof (cases err)
  case (ErrorObj name code message)
  with assms obtain m c0 where
    "retryOrReport P cfg a f m None c0 = (ctl1, c1)" "retryOrReport P cfg a f' m None c0 = (ctl2, c2)"
    by (simp add: catchBlock_def)
  from retryOrReport_rel[OF this] show ?thesis .
next
  case (NonError v)
  with assms obtain m c0 where
    "retryOrReport P cfg a f m None c0 = (ctl1, c1)" "retryOrReport P cfg a f' m None c0 = (ctl2, c2)"
    by (simp add: catchBlock_def)
  from retryOrReport_rel[OF this] show ?thesis .
qed

lemma resolveTarget_monitor:
  "space e' = space e \<Longrightarrow> resolveTarget P cfg e' c = resolveTarget P cfg e c"
  by (simp add: resolveTarget_def)

lemma tryBody_rel:
  assumes "tryBody P cfg a e c = (ctl1, c1)" and "tryBody P cfg a e' c = (ctl2, c2)"
    and "space e' = space e" and "target e' = target e"
  shows "ctl1 = ctl2 \<and> same_but_monitor c1 c2 \<and> (ctl1 \<noteq> Return \<longrightarrow> c1 = c2)"
proof -
  obtain r d where rt: "resolveTarget P cfg e c = (r, d)" by (cases "resolveTarget P cfg e c")
  then have rt': "resolveTarget P cfg e' c = (r, d)"
    using resolveTarget_monitor[OF assms(3), of P cfg c] by simp
  show ?thesis
  proof (cases r)
    case None
    from assms(1) rt None have r1:
      "report P cfg (monitor e) Down MsgNoTargetUrl None (noted NoTarget d) = (ctl1, c1)"
      by (simp add: tryBody_def)
    from assms(2) rt' None have r2:
      "report P cfg (monitor e') Down MsgNoTargetUrl None (noted NoTarget d) = (ctl2, c2)"
      by (simp add: tryBody_def)
    from report_rel[OF r1 r2] show ?thesis by simp
  next
    case (Some url)
    obtain evs ch where sc: "serializeCookie P (jar_of (says [Log Info (Visiting url)] d)) url = (evs, ch)"
      by (cases "serializeCookie P (jar_of (says [Log Info (Visiting url)] d)) url")
    show ?thesis
    proof (cases ch)
      case (Inl err)
      from assms(1) rt Some sc Inl have "(ctl1, c1) = (Throw err, says evs (says [Log Info (Visiting url)] d))"
        by (simp add: tryBody_def)
      moreover from assms(2) rt' Some sc Inl have "(ctl2, c2) = (Throw err, says evs (says [Log Info (Visiting url)] d))"
        by (simp add: tryBody_def)
      ultimately show ?thesis by simp
    next
      case (Inr cookieHeader)
      show ?thesis
      proof (cases "target e")
        case (Rejects err ms)
        from assms(1) rt Some sc Inr Rejects have "(ctl1, c1) = (Throw err,
            tick ms (says (evs @ [Fetch Target url cookieHeader]) (says [Log Info (Visiting url)] d)))"
          by (simp add: tryBody_def)
        moreover from assms(2) rt' Some sc Inr Rejects assms(4) have "(ctl2, c2) = (Throw err,
            tick ms (says (evs @ [Fetch Target url cookieHeader]) (says [Log Info (Visiting url)] d)))"
          by (simp add: tryBody_def)
        ultimately show ?thesis by simp
      next
        case (Resolves resp)
        define c6 where "c6 = tick (bodyMs resp) (applySetCookie P url (setCookie resp)
            (tick (headersMs resp) (says (evs @ [Fetch Target url cookieHeader])
               (says [Log Info (Visiting url)] d))))"
        show ?thesis
        proof (cases "bodyText resp")
          case (Inl err)
          from assms(1) rt Some sc \<open>ch = Inr cookieHeader\<close> Resolves Inl
          have "(ctl1, c1) = (Throw err, c6)"
            by (simp add: tryBody_def Let_def c6_def)
          moreover from assms(2) rt' Some sc \<open>ch = Inr cookieHeader\<close> Resolves Inl assms(4)
          have "(ctl2, c2) = (Throw err, c6)"
            by (simp add: tryBody_def Let_def c6_def)
          ultimately show ?thesis by simp
        next
          case (Inr responseBody)
          define rtm where "rtm = now d + headersMs resp - now c"
          from assms(1) rt Some sc \<open>ch = Inr cookieHeader\<close> Resolves Inr
          have h1: "handleResponse P cfg a (monitor e) (statusCode resp) responseBody rtm c6 = (ctl1, c1)"
            by (simp add: tryBody_def Let_def c6_def rtm_def)
          from assms(2) rt' Some sc \<open>ch = Inr cookieHeader\<close> Resolves Inr assms(4)
          have h2: "handleResponse P cfg a (monitor e') (statusCode resp) responseBody rtm c6 = (ctl2, c2)"
            by (simp add: tryBody_def Let_def c6_def rtm_def)
          from handleResponse_rel[OF h1 h2] show ?thesis .
        qed
      qed
    qed
  qed
qed


lemma iteration_rel:
  assumes "iteration P cfg a e c = (ctl1, c1)" and "iteration P cfg a e' c = (ctl2, c2)"
    and "space e' = space e" and "target e' = target e"
  shows "ctl1 = ctl2 \<and> same_but_monitor c1 c2 \<and> (ctl1 \<noteq> Return \<longrightarrow> c1 = c2)"
proof -
  obtain k1 d1 where t1: "tryBody P cfg a e c = (k1, d1)" by (cases "tryBody P cfg a e c")
  obtain k2 d2 where t2: "tryBody P cfg a e' c = (k2, d2)" by (cases "tryBody P cfg a e' c")
  note r = tryBody_rel[OF t1 t2 assms(3,4)]
  show ?thesis
  proof (cases k1)
    case (Throw err)
    with r have "k2 = Throw err" "d2 = d1" by simp_all
    with assms t1 t2 Throw have
      "catchBlock P cfg a (monitor e) err d1 = (ctl1, c1)"
      "catchBlock P cfg a (monitor e') err d1 = (ctl2, c2)"
      by (simp_all add: iteration_def)
    from catchBlock_rel[OF this] show ?thesis .
  next
    case Continue
    with r assms t1 t2 show ?thesis by (simp add: iteration_def)
  next
    case Return
    with r assms t1 t2 show ?thesis by (simp add: iteration_def)
  qed
qed

lemma keepAlive_loop_rel:
  assumes "keepAlive_loop P cfg W a c = (t1, c1)" and "keepAlive_loop P cfg W' a c = (t2, c2)"
    and "\<forall>k. space (W' k) = space (W k) \<and> target (W' k) = target (W k)"
  shows "t1 = t2 \<and> same_but_monitor c1 c2"
  using assms
proof (induction P cfg W a c arbitrary: t1 c1 t2 c2 rule: keepAlive_loop.induct)
  case (1 P cfg W a c)
  show ?case
  proof (cases "a \<le> maxRetries cfg")
    case False
    with "1.prems" show ?thesis
      by (simp add: keepAlive_loop.simps[of P cfg _ a c])
  next
    case True
    obtain k1 d1 where i1: "iteration P cfg a (W a) c = (k1, d1)"
      by (cases "iteration P cfg a (W a) c")
    obtain k2 d2 where i2: "iteration P cfg a (W' a) c = (k2, d2)"
      by (cases "iteration P cfg a (W' a) c")
    from "1.prems"(3) have sw: "space (W' a) = space (W a)" "target (W' a) = target (W a)" by simp_all
    note r = iteration_rel[OF i1 i2 sw]
    show ?thesis
    proof (cases k1)
      case Continue
      with r have e: "k2 = Continue" "d2 = d1" by simp_all
      from "1.prems"(1) True i1 Continue have l1: "keepAlive_loop P cfg W (a + 1) d1 = (t1, c1)"
        by (simp add: keepAlive_loop.simps[of P cfg W a c])
      from "1.prems"(2) True i2 e have l2: "keepAlive_loop P cfg W' (a + 1) d1 = (t2, c2)"
        by (simp add: keepAlive_loop.simps[of P cfg W' a c])
      from "1.IH"[OF True i1[symmetric] Continue l1 l2 "1.prems"(3)] show ?thesis .
    next
      case Return
      with r have e: "k2 = Return" "same_but_monitor d1 d2" by simp_all
      from "1.prems"(1) True i1 Return have "t1 = None" "c1 = d1"
        by (simp_all add: keepAlive_loop.simps[of P cfg W a c])
      moreover from "1.prems"(2) True i2 e have "t2 = None" "c2 = d2"
        by (simp_all add: keepAlive_loop.simps[of P cfg W' a c])
      ultimately show ?thesis using e by simp
    next
      case (Throw err)
      with r have e: "k2 = Throw err" "d2 = d1" by simp_all
      from "1.prems"(1) True i1 Throw have "t1 = Some err" "c1 = d1"
        by (simp_all add: keepAlive_loop.simps[of P cfg W a c])
      moreover from "1.prems"(2) True i2 e have "t2 = Some err" "c2 = d1"
        by (simp_all add: keepAlive_loop.simps[of P cfg W' a c])
      ultimately show ?thesis by simp
    qed
  qed
qed


lemma shape_program_events: "shape (program_events evs) = shape evs"
proof (induction evs)
  case Nil
  then show ?case by simp
next
  case (Cons ev evs)
  have "is_monitor_event ev \<Longrightarrow> step_of ev = []" by (cases ev) auto
  with Cons show ?case by auto
qed

lemma keepAlive_never_throws:
  assumes "keepAlive P cfg W j t0 = (thr, c')"
  shows "thr = None"
proof (cases "1 \<le> maxRetries cfg")
  case True
  from keepAlive_char[OF assms True] show ?thesis by blast
next
  case False
  with assms show ?thesis
    by (auto simp: keepAlive_def keepAlive_loop.simps[of P cfg W 1] split: if_splits)
qed

lemma push_disabled:
  "uptimeKuma cfg = None \<or> (\<exists>k. uptimeKuma cfg = Some k \<and> \<not> enabled k) \<Longrightarrow>
     pushToUptimeKuma P cfg f st m p = ([], None)"
  by (auto simp: pushToUptimeKuma_def)

lemma push_failures:
  assumes "uptimeKuma cfg = Some k" and "enabled k" and "url_hostname P (pushUrl k) = Inr h"
  shows "f = Rejects err ms \<Longrightarrow> fst (pushToUptimeKuma P cfg f st m p)
            = [Log Info (KumaPushing st), MonitorGet (pushUrl k) st m p,
               Log Warning (KumaPushException err)]"
    and "f = Resolves r \<Longrightarrow> bodyText r = Inr b \<Longrightarrow> statusCode r \<noteq> 200 \<Longrightarrow>
          fst (pushToUptimeKuma P cfg f st m p)
            = [Log Info (KumaPushing st), MonitorGet (pushUrl k) st m p,
               Log Warning (KumaPushHttp (statusCode r))]"
    and "f = Resolves r \<Longrightarrow> bodyText r = Inr b \<Longrightarrow> statusCode r = 200 \<Longrightarrow>
          json_parse P b = Inl err \<Longrightarrow>
          fst (pushToUptimeKuma P cfg f st m p)
            = [Log Info (KumaPushing st), MonitorGet (pushUrl k) st m p,
               Log Warning (KumaPushException err)]"
  using assms by (simp_all add: pushToUptimeKuma_def pushTry_def)

text \<open>
  Claim C7. \<open>pushToUptimeKuma\<close> never throws to its caller and sends at most one
  request to the monitor; when the monitor is not configured or is disabled it does
  nothing at all. With the monitor enabled, a request that is rejected (connection refused,
  timeout), an answer with a status other than 200 and an answer whose body does not parse
  are each logged as one warning after the single request. And what the monitor answers
  has no effect on the poll cycle: two cycles that differ only in the monitor's answers
  throw nothing, make the same attempts with the same outcomes, leave the same jar and
  show the same events apart from those of \<open>pushToUptimeKuma\<close> itself.
\<close>

theorem monitor_failure_isolated:
  assumes "keepAlive P cfg W j t0 = (thr, c1)" and "keepAlive P cfg W' j t0 = (thr', c2)"
    and "\<forall>k. space (W' k) = space (W k) \<and> target (W' k) = target (W k)"
  shows "snd (pushToUptimeKuma P cfg f st m p) = None
     \<and> length (filter is_monitor_get (fst (pushToUptimeKuma P cfg f st m p))) \<le> 1
     \<and> (uptimeKuma cfg = None \<or> (\<exists>k. uptimeKuma cfg = Some k \<and> \<not> enabled k)
          \<longrightarrow> fst (pushToUptimeKuma P cfg f st m p) = [])
     \<and> (\<forall>k h. uptimeKuma cfg = Some k \<and> enabled k \<and> url_hostname P (pushUrl k) = Inr h \<longrightarrow>
           (\<forall>err ms. f = Rejects err ms \<longrightarrow>
              fst (pushToUptimeKuma P cfg f st m p)
                = [Log Info (KumaPushing st), MonitorGet (pushUrl k) st m p,
                   Log Warning (KumaPushException err)])
         \<and> (\<forall>r b. f = Resolves r \<and> bodyText r = Inr b \<and> statusCode r \<noteq> 200 \<longrightarrow>
              fst (pushToUptimeKuma P cfg f st m p)
                = [Log Info (KumaPushing st), MonitorGet (pushUrl k) st m p,
                   Log Warning (KumaPushHttp (statusCode r))])
         \<and> (\<forall>r b err. f = Resolves r \<and> bodyText r = Inr b \<and> statusCode r = 200
                \<and> json_parse P b = Inl err \<longrightarrow>
              fst (pushToUptimeKuma P cfg f st m p)
                = [Log Info (KumaPushing st), MonitorGet (pushUrl k) st m p,
                   Log Warning (KumaPushException err)]))
     \<and> thr = None \<and> thr' = None
     \<and> attempts c1 = attempts c2 \<and> jar_of c1 = jar_of c2
     \<and> program_events (trace c1) = program_events (trace c2)
     \<and> shape (trace c1) = shape (trace c2)"
proof -
  have a: "snd (pushToUptimeKuma P cfg f st m p) = None
     \<and> length (filter is_monitor_get (fst (pushToUptimeKuma P cfg f st m p))) \<le> 1"
    using pushToUptimeKuma_events[OF surjective_pairing] by blast
  have b: "uptimeKuma cfg = None \<or> (\<exists>k. uptimeKuma cfg = Some k \<and> \<not> enabled k)
          \<longrightarrow> fst (pushToUptimeKuma P cfg f st m p) = []"
    using push_disabled[of cfg P f st m p] by auto
  from keepAlive_loop_rel[OF assms(1,2)[unfolded keepAlive_def] assms(3)]
  have r: "thr = thr'" "same_but_monitor c1 c2" by simp_all
  then have e: "attempts c1 = attempts c2" "jar_of c1 = jar_of c2"
    "program_events (trace c1) = program_events (trace c2)"
    by (simp_all add: same_but_monitor_def)
  from e(3) have s: "shape (trace c1) = shape (trace c2)"
    using shape_program_events[of "trace c1"] shape_program_events[of "trace c2"] by simp
  have t: "thr = None" "thr' = None"
    using keepAlive_never_throws[OF assms(1)] keepAlive_never_throws[OF assms(2)] by simp_all
  have d: "\<forall>k h. uptimeKuma cfg = Some k \<and> enabled k \<and> url_hostname P (pushUrl k) = Inr h \<longrightarrow>
           (\<forall>err ms. f = Rejects err ms \<longrightarrow>
              fst (pushToUptimeKuma P cfg f st m p)
                = [Log Info (KumaPushing st), MonitorGet (pushUrl k) st m p,
                   Log Warning (KumaPushException err)])
         \<and> (\<forall>r b. f = Resolves r \<and> bodyText r = Inr b \<and> statusCode r \<noteq> 200 \<longrightarrow>
              fst (pushToUptimeKuma P cfg f st m p)
                = [Log Info (KumaPushing st), MonitorGet (pushUrl k) st m p,
                   Log Warning (KumaPushHttp (statusCode r))])
         \<and> (\<forall>r b err. f = Resolves r \<and> bodyText r = Inr b \<and> statusCode r = 200
                \<and> json_parse P b = Inl err \<longrightarrow>
              fst (pushToUptimeKuma P cfg f st m p)
                = [Log Info (KumaPushing st), MonitorGet (pushUrl k) st m p,
                   Log Warning (KumaPushException err)])"
  proof (intro allI impI)
    fix k h
    assume "uptimeKuma cfg = Some k \<and> enabled k \<and> url_hostname P (pushUrl k) = Inr h"
    then have u: "uptimeKuma cfg = Some k" "enabled k" "url_hostname P (pushUrl k) = Inr h"
      by simp_all
    show "(\<forall>err ms. f = Rejects err ms \<longrightarrow>
              fst (pushToUptimeKuma P cfg f st m p)
                = [Log Info (KumaPushing st), MonitorGet (pushUrl k) st m p,
                   Log Warning (KumaPushException err)])
         \<and> (\<forall>r b. f = Resolves r \<and> bodyText r = Inr b \<and> statusCode r \<noteq> 200 \<longrightarrow>
              fst (pushToUptimeKuma P cfg f st m p)
                = [Log Info (KumaPushing st), MonitorGet (pushUrl k) st m p,
                   Log Warning (KumaPushHttp (statusCode r))])
         \<and> (\<forall>r b err. f = Resolves r \<and> bodyText r = Inr b \<and> statusCode r = 200
                \<and> json_parse P b = Inl err \<longrightarrow>
              fst (pushToUptimeKuma P cfg f st m p)
                = [Log Info (KumaPushing st), MonitorGet (pushUrl k) st m p,
                   Log Warning (KumaPushException err)])"
      using push_failures(1)[OF u, of f _ _ st m p] push_failures(2)[OF u, of f _ _ st m p]
        push_failures(3)[OF u, of f _ _ _ st m p]
      by blast
  qed
  from a b d e s t show ?thesis by (intro conjI) blast+
qed


theorem monitor_failure_isolated_witness:
  "attempts (snd (keepAlive sample_platform direct_config world_up_monitor_down empty_jar 0))
     = attempts (snd (keepAlive sample_platform direct_config world_up empty_jar 0))
   \<and> snd (pushToUptimeKuma sample_platform direct_config refused Up MsgOK (Some 30)) = None
   \<and> fst (pushToUptimeKuma sample_platform direct_config refused Up MsgOK (Some 30))
     = [Log Info (KumaPushing Up), MonitorGet ''https://kuma.example/api/push/k'' Up MsgOK (Some 30),
        Log Warning (KumaPushException (ErrorObj ''Error'' ''UND_ERR_CONNECT'' ''connect ECONNREFUSED''))]"
proof -
  have w: "\<forall>k. space (world_up k) = space (world_up_monitor_down k)
      \<and> target (world_up k) = target (world_up_monitor_down k)"
    by (simp add: world_up_monitor_down_def)
  have k: "uptimeKuma direct_config = Some \<lparr>pushUrl = ''https://kuma.example/api/push/k'', enabled = True\<rparr>"
    by (simp add: direct_config_def)
  have h: "url_hostname sample_platform ''https://kuma.example/api/push/k'' = Inr ''kuma.example''"
    by code_simp
  have f: "refused = Rejects (ErrorObj ''Error'' ''UND_ERR_CONNECT'' ''connect ECONNREFUSED'') 5"
    by (simp add: refused_def)
  note t = monitor_failure_isolated[where P = sample_platform and cfg = direct_config
      and W = world_up_monitor_down and W' = world_up and j = empty_jar and ?t0.0 = 0
      and f = refused and st = Up and m = MsgOK and p = "Some 30",
      OF surjective_pairing surjective_pairing w]
  from t have a: "attempts (snd (keepAlive sample_platform direct_config world_up_monitor_down empty_jar 0))
     = attempts (snd (keepAlive sample_platform direct_config world_up empty_jar 0))"
    by blast
  from t have b: "snd (pushToUptimeKuma sample_platform direct_config refused Up MsgOK (Some 30)) = None"
    by blast
  from t have "\<forall>k h. uptimeKuma direct_config = Some k \<and> enabled k
        \<and> url_hostname sample_platform (pushUrl k) = Inr h \<longrightarrow>
      (\<forall>err ms. refused = Rejects err ms \<longrightarrow>
         fst (pushToUptimeKuma sample_platform direct_config refused Up MsgOK (Some 30))
           = [Log Info (KumaPushing Up), MonitorGet (pushUrl k) Up MsgOK (Some 30),
              Log Warning (KumaPushException err)])"
    by blast
  from this[rule_format, of "\<lparr>pushUrl = ''https://kuma.example/api/push/k'', enabled = True\<rparr>"
      "''kuma.example''" "ErrorObj ''Error'' ''UND_ERR_CONNECT'' ''connect ECONNREFUSED''" 5] k h f
  have c: "fst (pushToUptimeKuma sample_platform direct_config refused Up MsgOK (Some 30))
     = [Log Info (KumaPushing Up), MonitorGet ''https://kuma.example/api/push/k'' Up MsgOK (Some 30),
        Log Warning (KumaPushException (ErrorObj ''Error'' ''UND_ERR_CONNECT'' ''connect ECONNREFUSED''))]"
    by simp
  from a b c show ?thesis by simp
qed

end
